theory Spec2Isabelle
  imports Complex_Main "HOL-Library.Word"
begin

section \<open>Solidity values, reverts and checked arithmetic\<close>

text \<open>
  The two contracts of \<^verbatim>\<open>contracts/src\<close> (EasyLVault and BondingCurve) are
  compiled with Solidity 0.8.24: a \<^verbatim>\<open>uint256\<close> is a 256-bit word, an
  \<^verbatim>\<open>int256\<close> the same word read in two's complement, an address a 160-bit word,
  and every \<^verbatim>\<open>+\<close>, \<^verbatim>\<open>-\<close>, \<^verbatim>\<open>*\<close> outside an
  \<^verbatim>\<open>unchecked\<close> block reverts with Panic(0x11) instead of wrapping.  A revert is
  the left summand of the result; a call that reverts leaves the state it started from.
\<close>

type_synonym u256 = "256 word"
type_synonym i256 = "256 word"
type_synonym address = "160 word"

datatype panic = ArithmeticOverflow | DivisionByZero

datatype error =
    ZeroAmount
  | ZeroAddress
  | InsufficientLiquidity u256 u256
  | ExcessiveReduction u256 u256
  | InsufficientTokens u256 u256
  | OwnableUnauthorizedAccount address
  | ERC20InsufficientBalance address u256 u256
  | ERC20InsufficientAllowance address u256 u256
  | ERC20InvalidSender address
  | ERC20InvalidReceiver address
  | ERC20InvalidApprover address
  | ERC20InvalidSpender address
  | MathOverflowedMulDiv
  | Panic panic

datatype event =
    Deposit address address u256 u256
  | Redeem address address u256 u256
  | FundsDeployed u256
  | FundsReturned u256
  | PnLReported i256 u256
  | TokensBought address u256 u256
  | TokensSold address u256 u256

definition rbind :: "error + 'a \<Rightarrow> ('a \<Rightarrow> error + 'b) \<Rightarrow> error + 'b" where
  "rbind m f = (case m of Inl e \<Rightarrow> Inl e | Inr x \<Rightarrow> f x)"

text \<open>The state after a call: the one the call returns, or the old one when it reverts.\<close>

definition transact :: "('s \<Rightarrow> error + 'a \<times> 's) \<Rightarrow> 's \<Rightarrow> (error + 'a) \<times> 's" where
  "transact f s = (case f s of Inl e \<Rightarrow> (Inl e, s) | Inr (r, s') \<Rightarrow> (Inr r, s'))"

definition checked_add :: "u256 \<Rightarrow> u256 \<Rightarrow> error + u256" where
  "checked_add a b =
     (if unat a + unat b < 2 ^ 256 then Inr (a + b) else Inl (Panic ArithmeticOverflow))"

definition checked_sub :: "u256 \<Rightarrow> u256 \<Rightarrow> error + u256" where
  "checked_sub a b =
     (if unat b \<le> unat a then Inr (a - b) else Inl (Panic ArithmeticOverflow))"

definition checked_mul :: "u256 \<Rightarrow> u256 \<Rightarrow> error + u256" where
  "checked_mul a b =
     (if unat a * unat b < 2 ^ 256 then Inr (a * b) else Inl (Panic ArithmeticOverflow))"

text \<open>Unary minus on \<^verbatim>\<open>int256\<close>: the least value has no negation and panics.\<close>

definition checked_neg :: "i256 \<Rightarrow> error + i256" where
  "checked_neg a =
     (if sint a = - (2 ^ 255) then Inl (Panic ArithmeticOverflow) else Inr (- a))"

section \<open>OpenZeppelin Math\<close>

text \<open>
  Modelled from the spec: \<^verbatim>\<open>Math.mulDiv\<close> and \<^verbatim>\<open>Math.sqrt\<close> are
  OpenZeppelin library code that the contracts import and that is not part of the
  repository.  The spec asks for "integer square-root and multiply-divide-without-overflow
  routines producing the floor of the true rational result": \<open>mulDiv x y d\<close> is
  \<open>\<lfloor>x * y / d\<rfloor>\<close> computed on the full 512-bit product, reverting when \<open>d\<close> is zero or
  the quotient does not fit 256 bits (which error it raises then differs between the
  library's versions; nothing below depends on it), and \<open>Math_sqrt a\<close> is
  \<open>\<lfloor>\<surd>a\<rfloor>\<close>, here computed by \<open>sqrt_floor\<close>, two bits at a time.
\<close>

definition mulDiv :: "u256 \<Rightarrow> u256 \<Rightarrow> u256 \<Rightarrow> error + u256" where
  "mulDiv x y d =
     (if d = 0 then Inl (Panic DivisionByZero)
      else if unat x * unat y div unat d < 2 ^ 256
        then Inr (word_of_nat (unat x * unat y div unat d))
      else Inl MathOverflowedMulDiv)"

function sqrt_floor :: "nat \<Rightarrow> nat" where
  "sqrt_floor n =
     (if n = 0 then 0
      else let r = 2 * sqrt_floor (n div 4)
           in if (r + 1) * (r + 1) \<le> n then r + 1 else r)"
  by pat_completeness auto
termination
  by (relation "measure (\<lambda>n. n)") auto

declare sqrt_floor.simps [simp del]

definition Math_sqrt :: "u256 \<Rightarrow> u256" where
  "Math_sqrt a = word_of_nat (sqrt_floor (unat a))"

section \<open>The ERC20 ledger\<close>

text \<open>
  Modelled from the spec: both contracts inherit OpenZeppelin's ERC20 (version 5, as the
  \<^verbatim>\<open>Ownable(_owner)\<close> constructor shows) for their own token, and hold their
  stablecoin in an external token reached through \<^verbatim>\<open>SafeERC20\<close>; neither is part of
  the repository.  The spec calls the latter "a standard fungible transfer/approve/allowance
  interface" that needs "caller pre-authorization before pulling funds", and the tests
  instantiate it with the same OpenZeppelin ERC20, so one ledger type serves both.  The
  functions below follow OpenZeppelin's \<^verbatim>\<open>_update\<close>, \<^verbatim>\<open>_mint\<close>,
  \<^verbatim>\<open>_burn\<close>, \<^verbatim>\<open>_transfer\<close>, \<^verbatim>\<open>_spendAllowance\<close>,
  \<^verbatim>\<open>transferFrom\<close> and \<^verbatim>\<open>approve\<close>: the total supply is raised with
  a checked addition, balances move in \<^verbatim>\<open>unchecked\<close> blocks (wrapping word
  arithmetic), and an allowance of \<open>2 ^ 256 - 1\<close> is not spent.
\<close>

record erc20 =
  totalSupply :: u256
  balanceOf :: "address \<Rightarrow> u256"
  allowance :: "address \<Rightarrow> address \<Rightarrow> u256"

definition erc20_update :: "address \<Rightarrow> address \<Rightarrow> u256 \<Rightarrow> erc20 \<Rightarrow> error + erc20" where
  "erc20_update src dst v t =
     rbind
       (if src = 0
          then rbind (checked_add (totalSupply t) v) (\<lambda>ts. Inr (t\<lparr>totalSupply := ts\<rparr>))
        else if balanceOf t src < v
          then Inl (ERC20InsufficientBalance src (balanceOf t src) v)
        else Inr (t\<lparr>balanceOf := (balanceOf t)(src := balanceOf t src - v)\<rparr>))
       (\<lambda>t1. Inr (if dst = 0 then t1\<lparr>totalSupply := totalSupply t1 - v\<rparr>
                  else t1\<lparr>balanceOf := (balanceOf t1)(dst := balanceOf t1 dst + v)\<rparr>))"

definition erc20_mint :: "address \<Rightarrow> u256 \<Rightarrow> erc20 \<Rightarrow> error + erc20" where
  "erc20_mint account v t =
     (if account = 0 then Inl (ERC20InvalidReceiver 0) else erc20_update 0 account v t)"

definition erc20_burn :: "address \<Rightarrow> u256 \<Rightarrow> erc20 \<Rightarrow> error + erc20" where
  "erc20_burn account v t =
     (if account = 0 then Inl (ERC20InvalidSender 0) else erc20_update account 0 v t)"

definition erc20_transfer :: "address \<Rightarrow> address \<Rightarrow> u256 \<Rightarrow> erc20 \<Rightarrow> error + erc20" where
  "erc20_transfer src dst v t =
     (if src = 0 then Inl (ERC20InvalidSender 0)
      else if dst = 0 then Inl (ERC20InvalidReceiver 0)
      else erc20_update src dst v t)"

definition erc20_spendAllowance :: "address \<Rightarrow> address \<Rightarrow> u256 \<Rightarrow> erc20 \<Rightarrow> error + erc20" where
  "erc20_spendAllowance holder spender v t =
     (let currentAllowance = allowance t holder spender in
      if currentAllowance < - 1 then
        if currentAllowance < v
          then Inl (ERC20InsufficientAllowance spender currentAllowance v)
        else if holder = 0 then Inl (ERC20InvalidApprover 0)
        else if spender = 0 then Inl (ERC20InvalidSpender 0)
        else Inr (t\<lparr>allowance :=
               (allowance t)(holder := (allowance t holder)(spender := currentAllowance - v))\<rparr>)
      else Inr t)"

definition erc20_transferFrom ::
    "address \<Rightarrow> address \<Rightarrow> address \<Rightarrow> u256 \<Rightarrow> erc20 \<Rightarrow> error + erc20" where
  "erc20_transferFrom spender src dst v t =
     rbind (erc20_spendAllowance src spender v t) (erc20_transfer src dst v)"

definition erc20_approve :: "address \<Rightarrow> address \<Rightarrow> u256 \<Rightarrow> erc20 \<Rightarrow> error + erc20" where
  "erc20_approve holder spender v t =
     (if holder = 0 then Inl (ERC20InvalidApprover 0)
      else if spender = 0 then Inl (ERC20InvalidSpender 0)
      else Inr (t\<lparr>allowance := (allowance t)(holder := (allowance t holder)(spender := v))\<rparr>))"

section \<open>EasyLVault\<close>

text \<open>
  The vault's storage: its own address, the Ownable owner, the external USDC ledger, the
  EASYL share ledger it inherits, \<^verbatim>\<open>managedAssets\<close>, and the events it has emitted
  (the five events the contract declares; the ledger's own Transfer and Approval events are
  not recorded).  \<^verbatim>\<open>nonReentrant\<close> is not modelled: the ledger above makes no
  callbacks, so the guard's flag is clear whenever a call starts.  Every function takes
  \<^verbatim>\<open>msg.sender\<close> first and returns its value with the new state.
\<close>

record vault =
  vault_address :: address
  owner :: address
  USDC :: erc20
  shares :: erc20
  managedAssets :: u256
  vault_events :: "event list"

definition VIRTUAL_OFFSET :: u256 where
  "VIRTUAL_OFFSET = 1000"

definition totalAssets :: "vault \<Rightarrow> error + u256" where
  "totalAssets s = checked_add (balanceOf (USDC s) (vault_address s)) (managedAssets s)"

definition availableLiquidity :: "vault \<Rightarrow> u256" where
  "availableLiquidity s = balanceOf (USDC s) (vault_address s)"

definition convertToShares :: "vault \<Rightarrow> u256 \<Rightarrow> error + u256" where
  "convertToShares s assets =
     rbind (checked_add (totalSupply (shares s)) VIRTUAL_OFFSET) (\<lambda>n.
     rbind (totalAssets s) (\<lambda>ta.
     rbind (checked_add ta VIRTUAL_OFFSET) (\<lambda>d.
     mulDiv assets n d)))"

definition convertToAssets :: "vault \<Rightarrow> u256 \<Rightarrow> error + u256" where
  "convertToAssets s sh =
     rbind (totalAssets s) (\<lambda>ta.
     rbind (checked_add ta VIRTUAL_OFFSET) (\<lambda>n.
     rbind (checked_add (totalSupply (shares s)) VIRTUAL_OFFSET) (\<lambda>d.
     mulDiv sh n d)))"

definition sharePrice :: "vault \<Rightarrow> error + u256" where
  "sharePrice s = convertToAssets s 1000000"

definition deposit :: "address \<Rightarrow> u256 \<Rightarrow> address \<Rightarrow> vault \<Rightarrow> error + u256 \<times> vault" where
  "deposit msg_sender assets receiver s =
     (if assets = 0 then Inl ZeroAmount
      else if receiver = 0 then Inl ZeroAddress
      else rbind (convertToShares s assets) (\<lambda>sh.
        if sh = 0 then Inl ZeroAmount
        else
          rbind (erc20_transferFrom (vault_address s) msg_sender (vault_address s) assets (USDC s))
            (\<lambda>u.
          rbind (erc20_mint receiver sh (shares s)) (\<lambda>t.
          Inr (sh, s\<lparr>USDC := u, shares := t,
                      vault_events := vault_events s @ [Deposit msg_sender receiver assets sh]\<rparr>)))))"

definition redeem :: "address \<Rightarrow> u256 \<Rightarrow> address \<Rightarrow> vault \<Rightarrow> error + u256 \<times> vault" where
  "redeem msg_sender sh receiver s =
     (if sh = 0 then Inl ZeroAmount
      else if receiver = 0 then Inl ZeroAddress
      else rbind (convertToAssets s sh) (\<lambda>assets.
        if assets = 0 then Inl ZeroAmount
        else
          let liquidity = availableLiquidity s in
          if liquidity < assets then Inl (InsufficientLiquidity assets liquidity)
          else
            rbind (erc20_burn msg_sender sh (shares s)) (\<lambda>t.
            rbind (erc20_transfer (vault_address s) receiver assets (USDC s)) (\<lambda>u.
            Inr (assets, s\<lparr>USDC := u, shares := t,
                          vault_events := vault_events s @ [Redeem msg_sender receiver sh assets]\<rparr>)))))"

definition deployFunds :: "address \<Rightarrow> u256 \<Rightarrow> vault \<Rightarrow> error + unit \<times> vault" where
  "deployFunds msg_sender amount s =
     (if owner s \<noteq> msg_sender then Inl (OwnableUnauthorizedAccount msg_sender)
      else if amount = 0 then Inl ZeroAmount
      else
        let liquidity = availableLiquidity s in
        if liquidity < amount then Inl (InsufficientLiquidity amount liquidity)
        else
          rbind (checked_add (managedAssets s) amount) (\<lambda>m.
          rbind (erc20_transfer (vault_address s) msg_sender amount (USDC s)) (\<lambda>u.
          Inr ((), s\<lparr>USDC := u, managedAssets := m,
                      vault_events := vault_events s @ [FundsDeployed amount]\<rparr>))))"

definition returnFunds :: "address \<Rightarrow> u256 \<Rightarrow> vault \<Rightarrow> error + unit \<times> vault" where
  "returnFunds msg_sender amount s =
     (if owner s \<noteq> msg_sender then Inl (OwnableUnauthorizedAccount msg_sender)
      else if amount = 0 then Inl ZeroAmount
      else if managedAssets s < amount then Inl (ExcessiveReduction amount (managedAssets s))
      else
        rbind (checked_sub (managedAssets s) amount) (\<lambda>m.
        rbind (erc20_transferFrom (vault_address s) msg_sender (vault_address s) amount (USDC s))
          (\<lambda>u.
        Inr ((), s\<lparr>USDC := u, managedAssets := m,
                    vault_events := vault_events s @ [FundsReturned amount]\<rparr>))))"

definition reportPnL :: "address \<Rightarrow> i256 \<Rightarrow> vault \<Rightarrow> error + unit \<times> vault" where
  "reportPnL msg_sender amount s =
     (if owner s \<noteq> msg_sender then Inl (OwnableUnauthorizedAccount msg_sender)
      else
        rbind
          (if 0 < sint amount then checked_add (managedAssets s) amount
           else if sint amount < 0 then
             rbind (checked_neg amount) (\<lambda>loss.
               if managedAssets s < loss then Inl (ExcessiveReduction loss (managedAssets s))
               else checked_sub (managedAssets s) loss)
           else Inr (managedAssets s))
          (\<lambda>m. Inr ((), s\<lparr>managedAssets := m,
                          vault_events := vault_events s @ [PnLReported amount m]\<rparr>)))"

section \<open>BondingCurve\<close>

text \<open>
  The curve's storage: its own address, the external USDC ledger, the RSIM token ledger it
  inherits, \<^verbatim>\<open>reserveBalance\<close> and the events it has emitted.  The constant
  expressions of the source are folded: \<^verbatim>\<open>SCALE * BASE_PRICE\<close> is \<open>10 ^ 10\<close>,
  \<^verbatim>\<open>2 * SCALE * SCALE\<close> is \<open>2 * 10 ^ 12\<close> and
  \<^verbatim>\<open>2 * SLOPE * SCALE * SCALE\<close> is \<open>2 * 10 ^ 16\<close>.
\<close>

record curve =
  curve_address :: address
  usdc :: erc20
  token :: erc20
  reserveBalance :: u256
  curve_events :: "event list"

definition BASE_PRICE :: u256 where
  "BASE_PRICE = 10000"

definition SLOPE :: u256 where
  "SLOPE = 10000"

definition SCALE :: u256 where
  "SCALE = 1000000"

definition getPrice :: "curve \<Rightarrow> error + u256" where
  "getPrice s =
     rbind (checked_mul SLOPE (totalSupply (token s))) (\<lambda>m.
     checked_add BASE_PRICE (m div SCALE))"

definition integralCost :: "u256 \<Rightarrow> u256 \<Rightarrow> error + u256" where
  "integralCost sLow sHigh =
     rbind (checked_sub sHigh sLow) (\<lambda>delta.
     rbind (mulDiv BASE_PRICE delta SCALE) (\<lambda>linearPart.
     rbind (checked_add sHigh sLow) (\<lambda>sm.
     rbind (checked_mul SLOPE sm) (\<lambda>m.
     rbind (mulDiv m delta (2 * SCALE * SCALE)) (\<lambda>quadPart.
     checked_add linearPart quadPart)))))"

definition getBuyCost :: "curve \<Rightarrow> u256 \<Rightarrow> error + u256" where
  "getBuyCost s tokenAmount =
     (if tokenAmount = 0 then Inr 0
      else
        let s0 = totalSupply (token s) in
        rbind (checked_add s0 tokenAmount) (\<lambda>s1. integralCost s0 s1))"

definition getSellReturn :: "curve \<Rightarrow> u256 \<Rightarrow> error + u256" where
  "getSellReturn s tokenAmount =
     (if tokenAmount = 0 then Inr 0
      else
        let s0 = totalSupply (token s) in
        if s0 < tokenAmount then Inl (InsufficientTokens tokenAmount s0)
        else rbind (checked_sub s0 tokenAmount) (\<lambda>s1. integralCost s1 s0))"

definition tokensForExactUsdc :: "curve \<Rightarrow> u256 \<Rightarrow> error + u256" where
  "tokensForExactUsdc s usdcAmount =
     (let s0 = totalSupply (token s) in
      rbind (checked_mul SLOPE s0) (\<lambda>m.
      rbind (checked_add (SCALE * BASE_PRICE) m) (\<lambda>b.
      rbind (checked_mul b b) (\<lambda>bb.
      rbind (checked_mul (2 * SLOPE * SCALE * SCALE) usdcAmount) (\<lambda>cx.
      rbind (checked_add bb cx) (\<lambda>discriminant.
        let sqrtDisc = Math_sqrt discriminant in
        if sqrtDisc \<le> b then Inr 0
        else rbind (checked_sub sqrtDisc b) (\<lambda>d. Inr (d div SLOPE))))))))"

definition buy :: "address \<Rightarrow> u256 \<Rightarrow> curve \<Rightarrow> error + u256 \<times> curve" where
  "buy msg_sender usdcAmount s =
     (if usdcAmount = 0 then Inl ZeroAmount
      else rbind (tokensForExactUsdc s usdcAmount) (\<lambda>tokenAmount.
        if tokenAmount = 0 then Inl ZeroAmount
        else
          rbind (erc20_transferFrom (curve_address s) msg_sender (curve_address s) usdcAmount
                   (usdc s)) (\<lambda>u.
          rbind (checked_add (reserveBalance s) usdcAmount) (\<lambda>r.
          rbind (erc20_mint msg_sender tokenAmount (token s)) (\<lambda>t.
          Inr (tokenAmount,
               s\<lparr>usdc := u, token := t, reserveBalance := r,
                 curve_events := curve_events s @ [TokensBought msg_sender usdcAmount tokenAmount]\<rparr>))))))"

definition sell :: "address \<Rightarrow> u256 \<Rightarrow> curve \<Rightarrow> error + u256 \<times> curve" where
  "sell msg_sender tokenAmount s =
     (if tokenAmount = 0 then Inl ZeroAmount
      else if balanceOf (token s) msg_sender < tokenAmount
        then Inl (InsufficientTokens tokenAmount (balanceOf (token s) msg_sender))
      else rbind (getSellReturn s tokenAmount) (\<lambda>usdcAmount.
        if usdcAmount = 0 then Inl ZeroAmount
        else
          rbind (erc20_burn msg_sender tokenAmount (token s)) (\<lambda>t.
          rbind (checked_sub (reserveBalance s) usdcAmount) (\<lambda>r.
          rbind (erc20_transfer (curve_address s) msg_sender usdcAmount (usdc s)) (\<lambda>u.
          Inr (usdcAmount,
               s\<lparr>usdc := u, token := t, reserveBalance := r,
                 curve_events := curve_events s @ [TokensSold msg_sender tokenAmount usdcAmount]\<rparr>))))))"

text \<open>
  The states the curve can be in: it is deployed with no tokens and no reserve, over any
  USDC ledger; callers buy and sell; holders move their tokens with the inherited
  \<^verbatim>\<open>transfer\<close>, \<^verbatim>\<open>approve\<close> and \<^verbatim>\<open>transferFrom\<close>; and
  the USDC ledger, which the curve does not own, changes between calls as its other users
  transfer and approve.
\<close>

definition initial_curve :: "curve \<Rightarrow> bool" where
  "initial_curve s \<longleftrightarrow>
     totalSupply (token s) = 0 \<and> balanceOf (token s) = (\<lambda>a. 0) \<and>
     allowance (token s) = (\<lambda>a b. 0) \<and> reserveBalance s = 0 \<and> curve_events s = []"

inductive reachable :: "curve \<Rightarrow> bool" where
  deployed: "initial_curve s \<Longrightarrow> reachable s"
| bought: "reachable s \<Longrightarrow> buy msg_sender usdcAmount s = Inr (tokenAmount, s') \<Longrightarrow> reachable s'"
| sold: "reachable s \<Longrightarrow> sell msg_sender tokenAmount s = Inr (usdcAmount, s') \<Longrightarrow> reachable s'"
| transferred:
    "reachable s \<Longrightarrow> erc20_transfer msg_sender dst v (token s) = Inr t \<Longrightarrow>
     reachable (s\<lparr>token := t\<rparr>)"
| approved:
    "reachable s \<Longrightarrow> erc20_approve msg_sender spender v (token s) = Inr t \<Longrightarrow>
     reachable (s\<lparr>token := t\<rparr>)"
| transferred_from:
    "reachable s \<Longrightarrow> erc20_transferFrom msg_sender src dst v (token s) = Inr t \<Longrightarrow>
     reachable (s\<lparr>token := t\<rparr>)"
| usdc_moved: "reachable s \<Longrightarrow> reachable (s\<lparr>usdc := u\<rparr>)"

section \<open>The price curve's integral, as the specification words it\<close>

text \<open>
  The specification's cost of moving the supply from \<open>s0\<close> to \<open>s1\<close>, in raw units:
  \<^verbatim>\<open>BASE_PRICE*(s1-s0)/SCALE + SLOPE*(s1^2-s0^2)/(2*SCALE^2)\<close>, a real number.
  This definition follows the specification's words, not the contract; the theorems below
  compare \<open>integralCost\<close> with its floor.
\<close>

definition curve_integral :: "nat \<Rightarrow> nat \<Rightarrow> real" where
  "curve_integral s0 s1 =
     real (unat BASE_PRICE) * (real s1 - real s0) / real (unat SCALE) +
     real (unat SLOPE) * ((real s1)\<^sup>2 - (real s0)\<^sup>2) / (2 * (real (unat SCALE))\<^sup>2)"

section \<open>Example states\<close>

text \<open>
  A USDC ledger in which the accounts 1, 2 and 7 hold 1,000,000 USDC each and have approved
  the curve (address 1000) and the vault (address 2000) without limit, as the tests'
  \<^verbatim>\<open>setUp\<close> does; a freshly deployed curve; and a freshly deployed vault owned by
  account 7.
\<close>

definition funded_ledger :: erc20 where
  "funded_ledger =
     \<lparr>totalSupply = 3000000000000,
      balanceOf = (\<lambda>a. if a = 1 \<or> a = 2 \<or> a = 7 then 1000000000000 else 0),
      allowance = (\<lambda>a b. if (a = 1 \<or> a = 2 \<or> a = 7) \<and> (b = 1000 \<or> b = 2000) then - 1 else 0)\<rparr>"

definition empty_ledger :: erc20 where
  "empty_ledger = \<lparr>totalSupply = 0, balanceOf = (\<lambda>a. 0), allowance = (\<lambda>a b. 0)\<rparr>"

definition curve0 :: curve where
  "curve0 =
     \<lparr>curve_address = 1000, usdc = funded_ledger, token = empty_ledger,
      reserveBalance = 0, curve_events = []\<rparr>"

definition vault0 :: vault where
  "vault0 =
     \<lparr>vault_address = 2000, owner = 7, USDC = funded_ledger, shares = empty_ledger,
      managedAssets = 0, vault_events = []\<rparr>"

text \<open>
  A donation: any holder can send USDC straight to the vault's address with the ledger's own
  \<^verbatim>\<open>transfer\<close>, without calling the vault, as the test
  \<^verbatim>\<open>test_inflationAttack_protected\<close> does.
\<close>

definition donate :: "address \<Rightarrow> u256 \<Rightarrow> vault \<Rightarrow> error + unit \<times> vault" where
  "donate msg_sender amount s =
     rbind (erc20_transfer msg_sender (vault_address s) amount (USDC s)) (\<lambda>u.
     Inr ((), s\<lparr>USDC := u\<rparr>))"

text \<open>The state a call leaves behind, and what it returned.\<close>

definition state_after :: "('s \<Rightarrow> error + 'a \<times> 's) \<Rightarrow> 's \<Rightarrow> 's" where
  "state_after f s = snd (transact f s)"

definition returned :: "('s \<Rightarrow> error + 'a \<times> 's) \<Rightarrow> 's \<Rightarrow> error + 'a" where
  "returned f s = fst (transact f s)"

section \<open>Results, checked arithmetic and the Math library\<close>

lemma rbind_Inr [simp]: "rbind (Inr x) f = f x"
  by (simp add: rbind_def)

lemma rbind_Inl [simp]: "rbind (Inl e) f = Inl e"
  by (simp add: rbind_def)

lemma rbind_eq_Inr: "rbind m f = Inr y \<longleftrightarrow> (\<exists>x. m = Inr x \<and> f x = Inr y)"
  by (cases m) simp_all

lemma unat_u256_bound: "unat (w :: u256) < 2 ^ 256"
  using unsigned_less [of w, where 'a = nat] by simp

lemma unat_word_of_nat_u256: "n < 2 ^ 256 \<Longrightarrow> unat (word_of_nat n :: u256) = n"
  by (simp add: unat_of_nat)

lemma checked_add_Inr:
  "checked_add a b = Inr c \<longleftrightarrow> unat a + unat b < 2 ^ 256 \<and> c = a + b"
  by (auto simp: checked_add_def split: if_splits)

lemma checked_add_unat: "checked_add a b = Inr c \<Longrightarrow> unat c = unat a + unat b"
  using unat_add_lem [of a b] by (auto simp: checked_add_def split: if_splits)

lemma checked_sub_Inr:
  "checked_sub a b = Inr c \<longleftrightarrow> unat b \<le> unat a \<and> c = a - b"
  by (auto simp: checked_sub_def split: if_splits)

lemma checked_sub_unat: "checked_sub a b = Inr c \<Longrightarrow> unat c = unat a - unat b"
  by (auto simp: checked_sub_def unat_sub word_le_nat_alt split: if_splits)

lemma checked_mul_Inr:
  "checked_mul a b = Inr c \<longleftrightarrow> unat a * unat b < 2 ^ 256 \<and> c = a * b"
  by (auto simp: checked_mul_def split: if_splits)

lemma checked_mul_unat: "checked_mul a b = Inr c \<Longrightarrow> unat c = unat a * unat b"
  using unat_mult_lem [of a b] by (auto simp: checked_mul_def split: if_splits)

lemma mulDiv_Inr:
  "mulDiv x y d = Inr r \<longleftrightarrow>
     d \<noteq> 0 \<and> unat x * unat y div unat d < 2 ^ 256 \<and> r = word_of_nat (unat x * unat y div unat d)"
  by (auto simp: mulDiv_def split: if_splits)

lemma mulDiv_unat: "mulDiv x y d = Inr r \<Longrightarrow> unat r = unat x * unat y div unat d"
  by (auto simp: mulDiv_def unat_of_nat split: if_splits)

lemma mulDiv_same: "d \<noteq> 0 \<Longrightarrow> mulDiv x d d = Inr x"
  using unat_u256_bound [of x] by (simp add: mulDiv_def unat_eq_0)


lemma sqrt_floor_bounds: "sqrt_floor n * sqrt_floor n \<le> n \<and> n < (sqrt_floor n + 1) * (sqrt_floor n + 1)"
proof (induction n rule: sqrt_floor.induct)
  case (1 n)
  show ?case
  proof (cases "n = 0")
    case True
    then show ?thesis by (simp add: sqrt_floor.simps)
  next
    case False
    define q where "q = sqrt_floor (n div 4)"
    from 1 False have IH: "q * q \<le> n div 4" "n div 4 < (q + 1) * (q + 1)"
      by (simp_all add: q_def)
    have lo: "(2 * q) * (2 * q) \<le> n"
    proof -
      have "(2 * q) * (2 * q) = 4 * (q * q)" by simp
      also have "\<dots> \<le> 4 * (n div 4)" using IH(1) by simp
      also have "\<dots> \<le> n" by simp
      finally show ?thesis .
    qed
    have hi: "n < (2 * q + 2) * (2 * q + 2)"
    proof -
      have "n < 4 * (n div 4) + 4" by presburger
      also have "\<dots> \<le> 4 * ((q + 1) * (q + 1))" using IH(2) by simp
      also have "\<dots> = (2 * q + 2) * (2 * q + 2)" by (simp add: algebra_simps)
      finally show ?thesis .
    qed
    have eq: "sqrt_floor n = (if (2 * q + 1) * (2 * q + 1) \<le> n then 2 * q + 1 else 2 * q)"
      using False by (subst sqrt_floor.simps) (simp add: q_def Let_def)
    show ?thesis
    proof (cases "(2 * q + 1) * (2 * q + 1) \<le> n")
      case True
      with eq hi show ?thesis by (simp add: algebra_simps)
    next
      case False
      with eq lo show ?thesis by (simp add: algebra_simps)
    qed
  qed
qed

lemma sqrt_floor_le: "sqrt_floor n \<le> n"
proof -
  have "sqrt_floor n \<le> sqrt_floor n * sqrt_floor n" by (cases "sqrt_floor n") simp_all
  with sqrt_floor_bounds [of n] show ?thesis by linarith
qed

lemma sqrt_floor_unique:
  assumes "r * r \<le> n" and "n < (r + 1) * (r + 1)"
  shows "sqrt_floor n = r"
proof (rule ccontr)
  assume ne: "sqrt_floor n \<noteq> r"
  let ?q = "sqrt_floor n"
  from sqrt_floor_bounds [of n] have q: "?q * ?q \<le> n" "n < (?q + 1) * (?q + 1)" by simp_all
  from ne consider "?q + 1 \<le> r" | "r + 1 \<le> ?q" by linarith
  then show False
  proof cases
    case 1
    then have "(?q + 1) * (?q + 1) \<le> r * r" by (intro mult_le_mono)
    with q(2) assms(1) show False by linarith
  next
    case 2
    then have "(r + 1) * (r + 1) \<le> ?q * ?q" by (intro mult_le_mono)
    with q(1) assms(2) show False by linarith
  qed
qed

lemma Math_sqrt_unat: "unat (Math_sqrt a) = sqrt_floor (unat a)"
proof -
  have "sqrt_floor (unat a) \<le> unat a" by (rule sqrt_floor_le)
  then show ?thesis unfolding Math_sqrt_def by (rule le_unat_uoi)
qed

section \<open>The ledger\<close>

lemma erc20_mint_Inr:
  "erc20_mint a v t = Inr t' \<longleftrightarrow>
     a \<noteq> 0 \<and> unat (totalSupply t) + unat v < 2 ^ 256 \<and>
     t' = t\<lparr>totalSupply := totalSupply t + v, balanceOf := (balanceOf t)(a := balanceOf t a + v)\<rparr>"
  by (auto simp: erc20_mint_def erc20_update_def checked_add_def split: if_splits)

lemma erc20_burn_Inr:
  "erc20_burn a v t = Inr t' \<longleftrightarrow>
     a \<noteq> 0 \<and> v \<le> balanceOf t a \<and>
     t' = t\<lparr>balanceOf := (balanceOf t)(a := balanceOf t a - v), totalSupply := totalSupply t - v\<rparr>"
  by (auto simp: erc20_burn_def erc20_update_def split: if_splits)

lemma erc20_transfer_Inr:
  "erc20_transfer src dst v t = Inr t' \<longleftrightarrow>
     src \<noteq> 0 \<and> dst \<noteq> 0 \<and> v \<le> balanceOf t src \<and>
     t' = t\<lparr>balanceOf := ((balanceOf t)(src := balanceOf t src - v))
                 (dst := ((balanceOf t)(src := balanceOf t src - v)) dst + v)\<rparr>"
  by (auto simp: erc20_transfer_def erc20_update_def split: if_splits)

lemma erc20_transfer_totalSupply:
  "erc20_transfer src dst v t = Inr t' \<Longrightarrow> totalSupply t' = totalSupply t"
  by (auto simp: erc20_transfer_Inr)

lemma erc20_approve_totalSupply:
  "erc20_approve holder spender v t = Inr t' \<Longrightarrow> totalSupply t' = totalSupply t"
  by (auto simp: erc20_approve_def split: if_splits)

lemma erc20_spendAllowance_balanceOf:
  "erc20_spendAllowance holder spender v t = Inr t' \<Longrightarrow>
     balanceOf t' = balanceOf t \<and> totalSupply t' = totalSupply t"
  by (auto simp: erc20_spendAllowance_def Let_def split: if_splits)

lemma erc20_transferFrom_balanceOf:
  assumes "erc20_transferFrom spender src dst v t = Inr t'"
  shows "src \<noteq> 0 \<and> dst \<noteq> 0 \<and> v \<le> balanceOf t src \<and>
     balanceOf t' = ((balanceOf t)(src := balanceOf t src - v))
                 (dst := ((balanceOf t)(src := balanceOf t src - v)) dst + v)"
proof -
  from assms obtain t1 where a: "erc20_spendAllowance src spender v t = Inr t1"
    and b: "erc20_transfer src dst v t1 = Inr t'"
    by (auto simp: erc20_transferFrom_def rbind_eq_Inr)
  from a have "balanceOf t1 = balanceOf t" by (simp add: erc20_spendAllowance_balanceOf)
  with b show ?thesis by (auto simp: erc20_transfer_Inr)
qed

lemma erc20_transferFrom_totalSupply:
  assumes "erc20_transferFrom spender src dst v t = Inr t'"
  shows "totalSupply t' = totalSupply t"
proof -
  from assms obtain t1 where a: "erc20_spendAllowance src spender v t = Inr t1"
    and b: "erc20_transfer src dst v t1 = Inr t'"
    by (auto simp: erc20_transferFrom_def rbind_eq_Inr)
  from a b show ?thesis
    by (simp add: erc20_spendAllowance_balanceOf erc20_transfer_totalSupply)
qed

section \<open>The curve on natural numbers\<close>

lemma unat_consts [simp]:
  "unat SLOPE = 10000" "unat BASE_PRICE = 10000" "unat SCALE = 1000000"
  "unat (SCALE * BASE_PRICE) = 10000000000"
  "unat (2 * SCALE * SCALE) = 2000000000000"
  "unat (2 * SLOPE * SCALE * SCALE) = 20000000000000000"
  "unat VIRTUAL_OFFSET = 1000"
  by (simp_all add: SLOPE_def BASE_PRICE_def SCALE_def VIRTUAL_OFFSET_def)

lemma tokensForExactUsdc_unat:
  assumes "tokensForExactUsdc s x = Inr t"
  shows "unat t =
     (sqrt_floor ((10000000000 + 10000 * unat (totalSupply (token s))) *
                  (10000000000 + 10000 * unat (totalSupply (token s))) +
                  20000000000000000 * unat x)
       - (10000000000 + 10000 * unat (totalSupply (token s)))) div 10000"
proof -
  let ?n = "unat (totalSupply (token s))"
  from assms obtain m b bb cx disc where
    m: "checked_mul SLOPE (totalSupply (token s)) = Inr m" and
    b: "checked_add (SCALE * BASE_PRICE) m = Inr b" and
    bb: "checked_mul b b = Inr bb" and
    cx: "checked_mul (2 * SLOPE * SCALE * SCALE) x = Inr cx" and
    disc: "checked_add bb cx = Inr disc" and
    t: "(if Math_sqrt disc \<le> b then Inr 0
         else rbind (checked_sub (Math_sqrt disc) b) (\<lambda>d. Inr (d div SLOPE))) = Inr t"
    by (auto simp: tokensForExactUsdc_def Let_def rbind_eq_Inr)
  have ub: "unat b = 10000000000 + 10000 * ?n"
    using checked_mul_unat [OF m] checked_add_unat [OF b] by simp
  have ud: "unat disc = unat b * unat b + 20000000000000000 * unat x"
    using checked_mul_unat [OF bb] checked_mul_unat [OF cx] checked_add_unat [OF disc] by simp
  have us: "unat (Math_sqrt disc) = sqrt_floor (unat b * unat b + 20000000000000000 * unat x)"
    by (simp add: Math_sqrt_unat ud)
  show ?thesis
  proof (cases "Math_sqrt disc \<le> b")
    case True
    with t have "t = 0" by simp
    moreover from True have "unat (Math_sqrt disc) \<le> unat b" by (simp add: word_le_nat_alt)
    ultimately show ?thesis using us ub by simp
  next
    case False
    with t obtain d where d: "checked_sub (Math_sqrt disc) b = Inr d" and td: "t = d div SLOPE"
      by (auto simp: rbind_eq_Inr)
    have "unat t = (unat (Math_sqrt disc) - unat b) div 10000"
      using checked_sub_unat [OF d] by (simp add: td unat_div)
    then show ?thesis using us ub by simp
  qed
qed

lemma integralCost_unat:
  assumes "integralCost lo hi = Inr c"
  shows "unat lo \<le> unat hi"
    and "unat c = 10000 * (unat hi - unat lo) div 1000000 +
         10000 * (unat hi + unat lo) * (unat hi - unat lo) div 2000000000000"
proof -
  from assms obtain delta lin sm m quad where
    delta: "checked_sub hi lo = Inr delta" and
    lin: "mulDiv BASE_PRICE delta SCALE = Inr lin" and
    sm: "checked_add hi lo = Inr sm" and
    m: "checked_mul SLOPE sm = Inr m" and
    quad: "mulDiv m delta (2 * SCALE * SCALE) = Inr quad" and
    c: "checked_add lin quad = Inr c"
    by (auto simp: integralCost_def rbind_eq_Inr)
  from delta show "unat lo \<le> unat hi" by (simp add: checked_sub_Inr)
  show "unat c = 10000 * (unat hi - unat lo) div 1000000 +
         10000 * (unat hi + unat lo) * (unat hi - unat lo) div 2000000000000"
    using checked_sub_unat [OF delta] mulDiv_unat [OF lin] checked_add_unat [OF sm]
      checked_mul_unat [OF m] mulDiv_unat [OF quad] checked_add_unat [OF c]
    by simp
qed

lemma integralCost_succeeds:
  assumes "unat lo \<le> unat hi"
    and "10000 * (unat hi + unat lo) < 2 ^ 256"
    and "10000 * (unat hi - unat lo) div 1000000 +
         10000 * (unat hi + unat lo) * (unat hi - unat lo) div 2000000000000 < 2 ^ 256"
  shows "\<exists>c. integralCost lo hi = Inr c"
proof -
  have d: "checked_sub hi lo = Inr (hi - lo)" using assms(1) by (simp add: checked_sub_def)
  have ud: "unat (hi - lo) = unat hi - unat lo"
    using checked_sub_unat [OF d] .
  have "10000 * (unat hi - unat lo) div 1000000 < 2 ^ 256" using assms(3) by simp
  then obtain lin where lin: "mulDiv BASE_PRICE (hi - lo) SCALE = Inr lin"
    by (simp add: mulDiv_def ud SCALE_def)
  have "unat hi + unat lo < 2 ^ 256" using assms(2) by simp
  then have sm: "checked_add hi lo = Inr (hi + lo)" by (simp add: checked_add_def)
  have usm: "unat (hi + lo) = unat hi + unat lo" using checked_add_unat [OF sm] .
  have m: "checked_mul SLOPE (hi + lo) = Inr (SLOPE * (hi + lo))"
    using assms(2) by (simp add: checked_mul_def usm)
  have um: "unat (SLOPE * (hi + lo)) = 10000 * (unat hi + unat lo)"
    using checked_mul_unat [OF m] usm by simp
  have "10000 * (unat hi + unat lo) * (unat hi - unat lo) div 2000000000000 < 2 ^ 256"
    using assms(3) by simp
  then obtain quad where quad: "mulDiv (SLOPE * (hi + lo)) (hi - lo) (2 * SCALE * SCALE) = Inr quad"
    by (simp add: mulDiv_def ud um SCALE_def)
  have "unat lin + unat quad < 2 ^ 256"
    using mulDiv_unat [OF lin] mulDiv_unat [OF quad] assms(3) by (simp add: ud um)
  then obtain c where c: "checked_add lin quad = Inr c" by (simp add: checked_add_def)
  show ?thesis
    by (simp add: integralCost_def d lin sm m quad c)
qed

lemma buy_Inr:
  assumes "buy c x s = Inr (t, s')"
  shows "tokensForExactUsdc s x = Inr t" and "t \<noteq> 0" and "x \<noteq> 0"
    and "unat (totalSupply (token s')) = unat (totalSupply (token s)) + unat t"
    and "unat (reserveBalance s') = unat (reserveBalance s) + unat x"
proof -
  from assms have x: "x \<noteq> 0" by (auto simp: buy_def split: if_splits)
  from assms x obtain t0 where t0: "tokensForExactUsdc s x = Inr t0" and
    rest: "(if t0 = 0 then Inl ZeroAmount
        else
          rbind (erc20_transferFrom (curve_address s) c (curve_address s) x (usdc s)) (\<lambda>u.
          rbind (checked_add (reserveBalance s) x) (\<lambda>r.
          rbind (erc20_mint c t0 (token s)) (\<lambda>tk.
          Inr (t0,
               s\<lparr>usdc := u, token := tk, reserveBalance := r,
                 curve_events := curve_events s @ [TokensBought c x t0]\<rparr>))))) = Inr (t, s')"
    by (auto simp: buy_def rbind_eq_Inr)
  from rest have nz: "t0 \<noteq> 0" by (auto split: if_splits)
  from rest nz obtain u r tk where
    r: "checked_add (reserveBalance s) x = Inr r" and
    tk: "erc20_mint c t0 (token s) = Inr tk" and
    eq: "t = t0" "s' = s\<lparr>usdc := u, token := tk, reserveBalance := r,
                 curve_events := curve_events s @ [TokensBought c x t0]\<rparr>"
    by (auto simp: rbind_eq_Inr)
  show "tokensForExactUsdc s x = Inr t" using t0 eq by simp
  show "t \<noteq> 0" using nz eq by simp
  show "x \<noteq> 0" by (rule x)
  have "unat (totalSupply tk) = unat (totalSupply (token s)) + unat t0"
    using tk unat_add_lem [of "totalSupply (token s)" t0] by (auto simp: erc20_mint_Inr)
  then show "unat (totalSupply (token s')) = unat (totalSupply (token s)) + unat t"
    using eq by simp
  show "unat (reserveBalance s') = unat (reserveBalance s) + unat x"
    using checked_add_unat [OF r] eq by simp
qed

lemma sell_Inr:
  assumes "sell c v s = Inr (u, s')"
  shows "v \<noteq> 0" and "u \<noteq> 0"
    and "unat v \<le> unat (totalSupply (token s))"
    and "integralCost (totalSupply (token s) - v) (totalSupply (token s)) = Inr u"
    and "unat (totalSupply (token s')) = unat (totalSupply (token s)) - unat v"
    and "unat u \<le> unat (reserveBalance s)"
    and "unat (reserveBalance s') = unat (reserveBalance s) - unat u"
proof -
  from assms have v: "v \<noteq> 0" and bal: "\<not> balanceOf (token s) c < v"
    by (auto simp: sell_def split: if_splits)
  from assms v bal obtain u0 where u0: "getSellReturn s v = Inr u0" and
    rest: "(if u0 = 0 then Inl ZeroAmount
        else
          rbind (erc20_burn c v (token s)) (\<lambda>t.
          rbind (checked_sub (reserveBalance s) u0) (\<lambda>r.
          rbind (erc20_transfer (curve_address s) c u0 (usdc s)) (\<lambda>us.
          Inr (u0,
               s\<lparr>usdc := us, token := t, reserveBalance := r,
                 curve_events := curve_events s @ [TokensSold c v u0]\<rparr>))))) = Inr (u, s')"
    by (auto simp: sell_def rbind_eq_Inr)
  from rest have nz: "u0 \<noteq> 0" by (auto split: if_splits)
  from rest nz obtain tk r us where
    tk: "erc20_burn c v (token s) = Inr tk" and
    r: "checked_sub (reserveBalance s) u0 = Inr r" and
    eq: "u = u0" "s' = s\<lparr>usdc := us, token := tk, reserveBalance := r,
                 curve_events := curve_events s @ [TokensSold c v u0]\<rparr>"
    by (auto simp: rbind_eq_Inr)
  from u0 v have le: "\<not> totalSupply (token s) < v" and
    ic: "integralCost (totalSupply (token s) - v) (totalSupply (token s)) = Inr u0"
    by (auto simp: getSellReturn_def Let_def rbind_eq_Inr checked_sub_Inr split: if_splits)
  from le have le': "v \<le> totalSupply (token s)" by simp
  show "v \<noteq> 0" by (rule v)
  show "u \<noteq> 0" using nz eq by simp
  show "unat v \<le> unat (totalSupply (token s))" using le' by (simp add: word_le_nat_alt)
  show "integralCost (totalSupply (token s) - v) (totalSupply (token s)) = Inr u"
    using ic eq by simp
  have "totalSupply tk = totalSupply (token s) - v" using tk by (auto simp: erc20_burn_Inr)
  then show "unat (totalSupply (token s')) = unat (totalSupply (token s)) - unat v"
    using eq le' by (simp add: unat_sub)
  show "unat u \<le> unat (reserveBalance s)" using r eq by (simp add: checked_sub_Inr)
  show "unat (reserveBalance s') = unat (reserveBalance s) - unat u"
    using checked_sub_unat [OF r] eq by simp
qed

section \<open>The reserve covers the integral\<close>

lemma buy_arith:
  fixes n x b t :: nat
  assumes b: "b = 10000000000 + 10000 * n"
    and t: "t = (sqrt_floor (b * b + 20000000000000000 * x) - b) div 10000"
  shows "20000000000 * t + 20000 * n * t + 10000 * t * t \<le> 2000000000000 * x"
proof -
  define r where "r = sqrt_floor (b * b + 20000000000000000 * x)"
  have rr: "r * r \<le> b * b + 20000000000000000 * x"
    unfolding r_def using sqrt_floor_bounds by blast
  have "10000 * t \<le> r - b" unfolding t r_def by simp
  show ?thesis
  proof (cases "t = 0")
    case True
    then show ?thesis by simp
  next
    case False
    with \<open>10000 * t \<le> r - b\<close> have le: "b + 10000 * t \<le> r" by linarith
    have "(b + 10000 * t) * (b + 10000 * t) \<le> r * r" using le by (intro mult_le_mono)
    with rr have "(b + 10000 * t) * (b + 10000 * t) \<le> b * b + 20000000000000000 * x"
      by linarith
    then have "10000 * (2 * b * t + 10000 * t * t) \<le> 10000 * (2000000000000 * x)"
      by (simp add: algebra_simps)
    then have "2 * b * t + 10000 * t * t \<le> 2000000000000 * x" by simp
    then show ?thesis by (simp add: b algebra_simps)
  qed
qed

lemma sell_arith:
  fixes n v c R :: nat
  assumes v: "v \<le> n"
    and c: "c = 10000 * (n - (n - v)) div 1000000 +
              10000 * (n + (n - v)) * (n - (n - v)) div 2000000000000"
    and inv: "20000000000 * n + 10000 * n * n \<le> 2000000000000 * R"
  shows "c \<le> R"
    and "20000000000 * (n - v) + 10000 * (n - v) * (n - v) \<le> 2000000000000 * (R - c)"
proof -
  define m where "m = n - v"
  have n: "n = m + v" using v by (simp add: m_def)
  define l where "l = 10000 * v div 1000000"
  define q where "q = 10000 * (2 * m + v) * v div 2000000000000"
  have nv: "n - (n - v) = v" "n + (n - v) = 2 * m + v" using v by (simp_all add: m_def)
  have c': "c = l + q" unfolding c l_def q_def nv by simp
  have l: "1000000 * l \<le> 10000 * v" unfolding l_def by simp
  have q: "2000000000000 * q \<le> 10000 * (2 * m + v) * v" unfolding q_def by simp
  have qq: "2000000000000 * q \<le> 20000 * (m * v) + 10000 * (v * v)"
    using q by (simp add: algebra_simps)
  have inv': "20000000000 * m + 20000000000 * v + (10000 * (m * m) + 20000 * (m * v) + 10000 * (v * v))
      \<le> 2000000000000 * R"
    using inv unfolding n by (simp add: algebra_simps)
  have "2000000 * (1000000 * l) \<le> 2000000 * (10000 * v)" using l by (rule mult_le_mono2)
  then have l2: "2000000000000 * l \<le> 20000000000 * v" by simp
  have split: "2000000000000 * c = 2000000000000 * l + 2000000000000 * q"
    unfolding c' by (simp add: algebra_simps)
  have main: "2000000000000 * c + (20000000000 * m + 10000 * (m * m)) \<le> 2000000000000 * R"
    unfolding split using l2 qq inv' by linarith
  then show "c \<le> R" by linarith
  then have "2000000000000 * (R - c) = 2000000000000 * R - 2000000000000 * c"
    by (simp add: diff_mult_distrib2)
  with main show "20000000000 * (n - v) + 10000 * (n - v) * (n - v) \<le> 2000000000000 * (R - c)"
    unfolding m_def [symmetric] by (simp add: algebra_simps)
qed

lemma backed_after_buy:
  fixes n t R x :: nat
  assumes inv: "20000000000 * n + 10000 * n * n \<le> 2000000000000 * R"
    and step: "20000000000 * t + 20000 * n * t + 10000 * t * t \<le> 2000000000000 * x"
  shows "20000000000 * (n + t) + 10000 * (n + t) * (n + t) \<le> 2000000000000 * (R + x)"
proof -
  have "10000 * (n + t) * (n + t) = 10000 * n * n + 20000 * n * t + 10000 * t * t"
    by (simp add: algebra_simps)
  moreover have "20000000000 * (n + t) = 20000000000 * n + 20000000000 * t"
    by (simp add: algebra_simps)
  moreover have "2000000000000 * (R + x) = 2000000000000 * R + 2000000000000 * x"
    by (simp add: algebra_simps)
  ultimately show ?thesis using inv step by linarith
qed

lemma reachable_backed:
  assumes "reachable s"
  shows "20000000000 * unat (totalSupply (token s)) +
         10000 * unat (totalSupply (token s)) * unat (totalSupply (token s))
         \<le> 2000000000000 * unat (reserveBalance s)"
  using assms
proof (induction rule: reachable.induct)
  case (deployed s)
  then show ?case by (simp add: initial_curve_def)
next
  case (bought s c x t s')
  let ?n = "unat (totalSupply (token s))"
  note f = buy_Inr [OF bought.hyps(2)]
  have "20000000000 * unat t + 20000 * ?n * unat t + 10000 * unat t * unat t
      \<le> 2000000000000 * unat x"
    by (rule buy_arith [OF refl]) (simp add: tokensForExactUsdc_unat [OF f(1)])
  with bought.IH show ?case
    unfolding f(4) f(5) by (rule backed_after_buy)
next
  case (sold s c v u s')
  note f = sell_Inr [OF sold.hyps(2)]
  let ?n = "unat (totalSupply (token s))"
  have sub: "unat (totalSupply (token s) - v) = ?n - unat v"
    using f(3) by (simp add: unat_sub word_le_nat_alt)
  have c: "unat u = 10000 * (?n - (?n - unat v)) div 1000000 +
              10000 * (?n + (?n - unat v)) * (?n - (?n - unat v)) div 2000000000000"
    using integralCost_unat(2) [OF f(4)] by (simp only: sub)
  show ?case unfolding f(5) f(7)
    by (rule sell_arith(2) [OF f(3) c sold.IH])
next
  case (transferred s c dst v t)
  then show ?case by (simp add: erc20_transfer_totalSupply)
next
  case (approved s c spender v t)
  then show ?case by (simp add: erc20_approve_totalSupply)
next
  case (transferred_from s c src dst v t)
  then show ?case by (simp add: erc20_transferFrom_totalSupply)
next
  case (usdc_moved s u)
  then show ?case by simp
qed

lemma backed_supply_small:
  fixes n R :: nat
  assumes inv: "20000000000 * n + 10000 * n * n \<le> 2000000000000 * R"
    and R: "R < 2 ^ 256"
  shows "n < 2 ^ 242"
proof (rule ccontr)
  assume "\<not> n < 2 ^ 242"
  then have big: "(2 :: nat) ^ 242 \<le> n" by simp
  then have "(2 :: nat) ^ 242 * 2 ^ 242 \<le> n * n" by (intro mult_le_mono)
  then have "(2 :: nat) ^ 484 \<le> n * n" by (simp add: power_add [symmetric])
  moreover have "2000000000000 * R < 2000000000000 * 2 ^ 256" using R by simp
  moreover have "(2000000000000 :: nat) * 2 ^ 256 \<le> 10000 * 2 ^ 484" by simp
  ultimately show False using inv by linarith
qed

lemma backed_cost_le:
  fixes n R :: nat
  assumes inv: "20000000000 * n + 10000 * n * n \<le> 2000000000000 * R"
  shows "10000 * n div 1000000 + 10000 * n * n div 2000000000000 \<le> R"
proof -
  define l where "l = 10000 * n div 1000000"
  define q where "q = 10000 * n * n div 2000000000000"
  have "1000000 * l \<le> 10000 * n" unfolding l_def by simp
  then have "2000000 * (1000000 * l) \<le> 2000000 * (10000 * n)" by (rule mult_le_mono2)
  then have l: "2000000000000 * l \<le> 20000000000 * n" by simp
  have q: "2000000000000 * q \<le> 10000 * n * n" unfolding q_def by simp
  have "2000000000000 * (l + q) = 2000000000000 * l + 2000000000000 * q"
    by (simp add: algebra_simps)
  with l q inv have "2000000000000 * (l + q) \<le> 2000000000000 * R" by linarith
  then have "l + q \<le> R" by simp
  then show ?thesis by (simp add: l_def q_def)
qed

section \<open>Evaluating calls on the example states\<close>

lemma transact_Inr: "f s = Inr (r, s') \<Longrightarrow> state_after f s = s' \<and> returned f s = Inr r"
  by (simp add: state_after_def returned_def transact_def)

lemma transact_Inl: "f s = Inl e \<Longrightarrow> state_after f s = s \<and> returned f s = Inl e"
  by (simp add: state_after_def returned_def transact_def)

lemma curve0_fields:
  "curve_address curve0 = 1000" "usdc curve0 = funded_ledger" "token curve0 = empty_ledger"
  "reserveBalance curve0 = 0" "curve_events curve0 = []"
  by (simp_all add: curve0_def)

lemma initial_curve0: "initial_curve curve0"
  by (simp add: initial_curve_def curve0_def empty_ledger_def)

lemmas eval_defs =
  erc20_transferFrom_def erc20_spendAllowance_def erc20_transfer_def erc20_update_def
  erc20_mint_def erc20_burn_def checked_add_def checked_sub_def checked_mul_def mulDiv_def
  SLOPE_def SCALE_def BASE_PRICE_def VIRTUAL_OFFSET_def Let_def

lemma sqrt_floor_ex2: "sqrt_floor 20100000000000000000000 = 141774468787"
  by (rule sqrt_floor_unique) simp_all

lemma tokens_ex2: "tokensForExactUsdc curve0 1000000 = Inr 13177446"
  by (simp add: tokensForExactUsdc_def curve0_fields empty_ledger_def eval_defs Math_sqrt_def sqrt_floor_ex2)

lemma buy_ex2:
  "buy 1 1000000 curve0 =
     Inr (13177446,
          curve0\<lparr>usdc := funded_ledger\<lparr>balanceOf :=
                    (balanceOf funded_ledger)(1 := 999999000000, 1000 := 1000000)\<rparr>,
                 token := empty_ledger\<lparr>totalSupply := 13177446,
                    balanceOf := (\<lambda>a. 0)(1 := 13177446)\<rparr>,
                 reserveBalance := 1000000,
                 curve_events := [TokensBought 1 1000000 13177446]\<rparr>)"
  by (simp add: buy_def tokens_ex2 curve0_fields funded_ledger_def empty_ledger_def eval_defs)

lemma ic_ex2: "integralCost 0 13177446 = Inr 999999"
  by (simp add: integralCost_def eval_defs)

lemma sell_ex2:
  "sell 1 13177446
     (curve0\<lparr>usdc := funded_ledger\<lparr>balanceOf :=
                    (balanceOf funded_ledger)(1 := 999999000000, 1000 := 1000000)\<rparr>,
                 token := empty_ledger\<lparr>totalSupply := 13177446,
                    balanceOf := (\<lambda>a. 0)(1 := 13177446)\<rparr>,
                 reserveBalance := 1000000,
                 curve_events := [TokensBought 1 1000000 13177446]\<rparr>) =
     Inr (999999,
          curve0\<lparr>usdc := funded_ledger\<lparr>balanceOf :=
                    (balanceOf funded_ledger)(1000 := 1, 1 := 999999999999)\<rparr>,
                 token := empty_ledger\<lparr>totalSupply := 0, balanceOf := (\<lambda>a. 0)(1 := 0)\<rparr>,
                 reserveBalance := 1,
                 curve_events := [TokensBought 1 1000000 13177446, TokensSold 1 13177446 999999]\<rparr>)"
  by (simp add: sell_def getSellReturn_def ic_ex2 curve0_fields funded_ledger_def empty_ledger_def eval_defs)

section \<open>Claims about the bonding curve's reserve\<close>

text \<open>
  C1.  In every state the curve reaches from its deployment by successful buys and sells
  (with transfers and approvals of the token or of USDC in between), the contract's own
  cost computation
  from supply 0 to the current total supply returns a value, and that value is at most
  \<open>reserveBalance\<close>: the reserve is never under-collateralised relative to the minted
  supply.
\<close>

theorem reserve_covers_computed_integral:
  assumes "reachable s"
  shows "\<exists>c. integralCost 0 (totalSupply (token s)) = Inr c \<and> c \<le> reserveBalance s"
proof -
  let ?n = "unat (totalSupply (token s))"
  let ?R = "unat (reserveBalance s)"
  note inv = reachable_backed [OF assms]
  have R: "?R < 2 ^ 256" by (rule unat_u256_bound)
  have n: "?n < 2 ^ 242" using inv R by (rule backed_supply_small)
  have le: "10000 * ?n div 1000000 + 10000 * ?n * ?n div 2000000000000 \<le> ?R"
    using inv by (rule backed_cost_le)
  have "10000 * ?n < 10000 * 2 ^ 242" using n by simp
  then have a2: "10000 * (?n + unat (0 :: u256)) < 2 ^ 256" by simp
  have a3: "10000 * (?n - unat (0 :: u256)) div 1000000 +
      10000 * (?n + unat (0 :: u256)) * (?n - unat (0 :: u256)) div 2000000000000 < 2 ^ 256"
    using le R by simp
  have "unat (0 :: u256) \<le> ?n" by simp
  from integralCost_succeeds [OF this a2 a3]
  obtain c where c: "integralCost 0 (totalSupply (token s)) = Inr c" by blast
  have "unat c \<le> ?R" using integralCost_unat(2) [OF c] le by simp
  then have "c \<le> reserveBalance s" by (simp add: word_le_nat_alt)
  with c show ?thesis by blast
qed

theorem reserve_covers_computed_integral_witness:
  "returned (buy 1 1000000) curve0 = Inr 13177446 \<and>
   reachable (state_after (buy 1 1000000) curve0) \<and>
   totalSupply (token (state_after (buy 1 1000000) curve0)) = 13177446 \<and>
   reserveBalance (state_after (buy 1 1000000) curve0) = 1000000 \<and>
   integralCost 0 13177446 = Inr 999999 \<and>
   (\<exists>c. integralCost 0 (totalSupply (token (state_after (buy 1 1000000) curve0))) = Inr c \<and>
        c \<le> reserveBalance (state_after (buy 1 1000000) curve0))"
proof -
  note b = transact_Inr [of "buy 1 1000000" curve0, OF buy_ex2]
  have r: "reachable (state_after (buy 1 1000000) curve0)"
    using reachable.bought [OF reachable.deployed [OF initial_curve0] buy_ex2] b by simp
  from reserve_covers_computed_integral [OF r] show ?thesis
    using r by (simp add: b ic_ex2)
qed

section \<open>The contract's cost and the true integral\<close>

lemma curve_integral_nat:
  assumes "s0 \<le> s1"
  shows "curve_integral s0 s1 =
     real (20000000000 * (s1 - s0) + 10000 * (s1 + s0) * (s1 - s0)) / 2000000000000"
proof -
  have d: "real (s1 - s0) = real s1 - real s0" using assms by (simp add: of_nat_diff)
  have "curve_integral s0 s1 =
      10000 * (real s1 - real s0) / 1000000 +
      10000 * ((real s1 + real s0) * (real s1 - real s0)) / 2000000000000"
    by (simp add: curve_integral_def power2_eq_square algebra_simps)
  also have "\<dots> = (20000000000 * (real s1 - real s0) +
      10000 * ((real s1 + real s0) * (real s1 - real s0))) / 2000000000000"
    by (simp add: add_divide_distrib)
  also have "\<dots> = real (20000000000 * (s1 - s0) + 10000 * (s1 + s0) * (s1 - s0)) / 2000000000000"
    by (simp add: d)
  finally show ?thesis .
qed

lemma floor_curve_integral:
  assumes "s0 \<le> s1"
  shows "\<lfloor>curve_integral s0 s1\<rfloor> =
     int ((20000000000 * (s1 - s0) + 10000 * (s1 + s0) * (s1 - s0)) div 2000000000000)"
proof -
  have "\<lfloor>curve_integral s0 s1\<rfloor> =
      \<lfloor>real (20000000000 * (s1 - s0) + 10000 * (s1 + s0) * (s1 - s0)) / real 2000000000000\<rfloor>"
    by (simp add: curve_integral_nat [OF assms])
  also have "\<dots> = int ((20000000000 * (s1 - s0) + 10000 * (s1 + s0) * (s1 - s0)) div 2000000000000)"
    by (rule floor_divide_of_nat_eq)
  finally show ?thesis .
qed

lemma two_floors:
  fixes a b :: nat
  shows "a div 1000000 + b div 2000000000000 \<le> (2000000 * a + b) div 2000000000000"
    and "(2000000 * a + b) div 2000000000000 \<le> a div 1000000 + b div 2000000000000 + 1"
proof -
  define l where "l = a div 1000000"
  define q where "q = b div 2000000000000"
  have la: "1000000 * l \<le> a" unfolding l_def by simp
  have qb: "2000000000000 * q \<le> b" unfolding q_def by simp
  have al: "a < 1000000 + 1000000 * l" unfolding l_def by (rule dividend_less_times_div) simp
  have bq: "b < 2000000000000 + 2000000000000 * q"
    unfolding q_def by (rule dividend_less_times_div) simp
  have "2000000 * (1000000 * l) \<le> 2000000 * a" using la by (rule mult_le_mono2)
  then have la2: "2000000000000 * l \<le> 2000000 * a" by simp
  have "2000000 * a < 2000000 * (1000000 + 1000000 * l)" using al by simp
  then have al2: "2000000 * a < 2000000000000 + 2000000000000 * l" by simp
  have "(l + q) * 2000000000000 = 2000000000000 * l + 2000000000000 * q"
    by (simp add: algebra_simps)
  then have "(l + q) * 2000000000000 \<le> 2000000 * a + b" using la2 qb by linarith
  then have "l + q \<le> (2000000 * a + b) div 2000000000000"
    by (simp add: less_eq_div_iff_mult_less_eq)
  then show "a div 1000000 + b div 2000000000000 \<le> (2000000 * a + b) div 2000000000000"
    by (simp add: l_def q_def)
  have "(l + q + 2) * 2000000000000 =
      2000000000000 + 2000000000000 * l + (2000000000000 + 2000000000000 * q)"
    by (simp add: algebra_simps)
  then have "2000000 * a + b < (l + q + 2) * 2000000000000" using al2 bq by linarith
  then have "(2000000 * a + b) div 2000000000000 < l + q + 2"
    by (simp add: div_less_iff_less_mult)
  then show "(2000000 * a + b) div 2000000000000 \<le> a div 1000000 + b div 2000000000000 + 1"
    by (simp add: l_def q_def)
qed

lemma sqrt_floor_ex1: "sqrt_floor 100020000000000000000 = 10000999950"
  by (rule sqrt_floor_unique) simp_all

lemma tokens_ex1: "tokensForExactUsdc curve0 1 = Inr 99"
  by (simp add: tokensForExactUsdc_def curve0_fields empty_ledger_def eval_defs Math_sqrt_def sqrt_floor_ex1)

lemma buy_ex1:
  "buy 1 1 curve0 =
     Inr (99,
          curve0\<lparr>usdc := funded_ledger\<lparr>balanceOf :=
                    (balanceOf funded_ledger)(1 := 999999999999, 1000 := 1)\<rparr>,
                 token := empty_ledger\<lparr>totalSupply := 99, balanceOf := (\<lambda>a. 0)(1 := 99)\<rparr>,
                 reserveBalance := 1,
                 curve_events := [TokensBought 1 1 99]\<rparr>)"
  by (simp add: buy_def tokens_ex1 curve0_fields funded_ledger_def empty_ledger_def eval_defs)

text \<open>
  C2 (amended).  The specification's statement that \<open>reserveBalance\<close> always equals the integral of the price
  curve from 0 to the total supply, and is zero whenever the supply is zero, fails: a buy
  adds the whole USDC amount paid although the tokens minted are rounded down, and a sell
  pays out a rounded-down return.  What holds in every reachable state is that
  \<open>reserveBalance\<close> is at least the true (real-valued) integral of the price curve from
  0 to the total supply; and the reserve is zero in the state the curve is deployed in.
\<close>

theorem reserve_covers_true_integral:
  assumes "reachable s"
  shows "curve_integral 0 (unat (totalSupply (token s))) \<le> real (unat (reserveBalance s)) \<and>
     (initial_curve s \<longrightarrow> reserveBalance s = 0)"
proof -
  let ?n = "unat (totalSupply (token s))"
  let ?R = "unat (reserveBalance s)"
  have "20000000000 * ?n + 10000 * ?n * ?n \<le> 2000000000000 * ?R"
    by (rule reachable_backed [OF assms])
  then have "real (20000000000 * ?n + 10000 * ?n * ?n) \<le> real (2000000000000 * ?R)"
    by (rule of_nat_mono)
  then have "real (20000000000 * ?n + 10000 * ?n * ?n) / 2000000000000 \<le> real ?R"
    by simp
  then have "curve_integral 0 ?n \<le> real ?R"
    by (simp add: curve_integral_nat)
  then show ?thesis by (simp add: initial_curve_def)
qed

theorem reserve_covers_true_integral_witness:
  "reachable (state_after (buy 1 1000000) curve0) \<and>
   totalSupply (token (state_after (buy 1 1000000) curve0)) = 13177446 \<and>
   reserveBalance (state_after (buy 1 1000000) curve0) = 1000000 \<and>
   curve_integral 0 (unat (totalSupply (token (state_after (buy 1 1000000) curve0))))
     \<le> real (unat (reserveBalance (state_after (buy 1 1000000) curve0))) \<and>
   initial_curve curve0 \<and> reserveBalance curve0 = 0"
proof -
  note b = transact_Inr [of "buy 1 1000000" curve0, OF buy_ex2]
  have r: "reachable (state_after (buy 1 1000000) curve0)"
    using reachable.bought [OF reachable.deployed [OF initial_curve0] buy_ex2] b by simp
  from reserve_covers_true_integral [OF r]
    reserve_covers_true_integral [OF reachable.deployed [OF initial_curve0]]
  show ?thesis using r initial_curve0 by (simp add: b)
qed

text \<open>
  The counterexample to C2 as stated: buying with 1 raw unit of USDC mints 99 raw tokens,
  whose integral is below 1 (the contract computes 0) while the reserve is 1; and buying
  with 1 USDC and selling all 13177446 tokens minted returns 999999, leaving a supply of 0
  with a reserve of 1.
\<close>

theorem reserve_exceeds_integral_counterexample:
  "returned (buy 1 1) curve0 = Inr 99 \<and>
   reachable (state_after (buy 1 1) curve0) \<and>
   totalSupply (token (state_after (buy 1 1) curve0)) = 99 \<and>
   reserveBalance (state_after (buy 1 1) curve0) = 1 \<and>
   integralCost 0 99 = Inr 0 \<and>
   curve_integral 0 99 < 1 \<and>
   returned (sell 1 13177446) (state_after (buy 1 1000000) curve0) = Inr 999999 \<and>
   reachable (state_after (sell 1 13177446) (state_after (buy 1 1000000) curve0)) \<and>
   totalSupply (token (state_after (sell 1 13177446) (state_after (buy 1 1000000) curve0))) = 0 \<and>
   reserveBalance (state_after (sell 1 13177446) (state_after (buy 1 1000000) curve0)) = 1"
proof -
  note b1 = transact_Inr [of "buy 1 1" curve0, OF buy_ex1]
  note b2 = transact_Inr [of "buy 1 1000000" curve0, OF buy_ex2]
  note s2 = transact_Inr [of "sell 1 13177446", OF sell_ex2]
  have r0: "reachable curve0" by (rule reachable.deployed [OF initial_curve0])
  have r1: "reachable (state_after (buy 1 1) curve0)"
    using reachable.bought [OF r0 buy_ex1] b1 by simp
  have r2: "reachable (state_after (sell 1 13177446) (state_after (buy 1 1000000) curve0))"
    using reachable.sold [OF reachable.bought [OF r0 buy_ex2] sell_ex2] b2 s2 by simp
  have ic: "integralCost 0 99 = Inr 0" by (simp add: integralCost_def eval_defs)
  have ci: "curve_integral 0 99 < 1" by (simp add: curve_integral_nat)
  show ?thesis using r1 r2 ic ci by (simp add: b1 b2 s2)
qed

text \<open>
  C3 (amended).  The specification's statement that the cost computation returns exactly the floor of the true
  integral fails: the contract floors the linear part and the quadratic part separately and
  adds them.  What holds for all supplies \<open>sLow \<le> sHigh\<close>: whenever the computation returns,
  the result is \<open>\<lfloor>BASE_PRICE * delta / SCALE\<rfloor> + \<lfloor>SLOPE * (sHigh + sLow) * delta / (2 * SCALE\<^sup>2)\<rfloor>\<close>,
  which is the floor of the true integral or one less; and it returns whenever
  \<open>SLOPE * (sHigh + sLow)\<close> and that result fit 256 bits.
\<close>

theorem integralCost_floor_within_one:
  "(integralCost sLow sHigh = Inr c \<longrightarrow>
      unat sLow \<le> unat sHigh \<and>
      unat c = unat BASE_PRICE * (unat sHigh - unat sLow) div unat SCALE +
               unat SLOPE * (unat sHigh + unat sLow) * (unat sHigh - unat sLow)
                 div (2 * unat SCALE * unat SCALE) \<and>
      int (unat c) \<le> \<lfloor>curve_integral (unat sLow) (unat sHigh)\<rfloor> \<and>
      \<lfloor>curve_integral (unat sLow) (unat sHigh)\<rfloor> \<le> int (unat c) + 1) \<and>
   (unat sLow \<le> unat sHigh \<and>
    unat SLOPE * (unat sHigh + unat sLow) < 2 ^ 256 \<and>
    unat BASE_PRICE * (unat sHigh - unat sLow) div unat SCALE +
      unat SLOPE * (unat sHigh + unat sLow) * (unat sHigh - unat sLow)
        div (2 * unat SCALE * unat SCALE) < 2 ^ 256 \<longrightarrow>
      (\<exists>r. integralCost sLow sHigh = Inr r))"
proof (intro conjI impI)
  assume a: "integralCost sLow sHigh = Inr c"
  let ?d = "unat sHigh - unat sLow"
  let ?b = "10000 * (unat sHigh + unat sLow) * ?d"
  note le = integralCost_unat(1) [OF a]
  note c = integralCost_unat(2) [OF a]
  have fl: "\<lfloor>curve_integral (unat sLow) (unat sHigh)\<rfloor> =
      int ((2000000 * (10000 * ?d) + ?b) div 2000000000000)"
    by (simp add: floor_curve_integral [OF le])
  have lo: "unat c \<le> (2000000 * (10000 * ?d) + ?b) div 2000000000000"
    unfolding c by (rule two_floors(1))
  have hi: "(2000000 * (10000 * ?d) + ?b) div 2000000000000 \<le> unat c + 1"
    unfolding c by (rule two_floors(2))
  show "unat sLow \<le> unat sHigh" by (rule le)
  show "unat c = unat BASE_PRICE * (unat sHigh - unat sLow) div unat SCALE +
               unat SLOPE * (unat sHigh + unat sLow) * (unat sHigh - unat sLow)
                 div (2 * unat SCALE * unat SCALE)"
    using c by simp
  show "int (unat c) \<le> \<lfloor>curve_integral (unat sLow) (unat sHigh)\<rfloor>"
    using lo unfolding fl by linarith
  show "\<lfloor>curve_integral (unat sLow) (unat sHigh)\<rfloor> \<le> int (unat c) + 1"
    using hi unfolding fl by linarith
next
  assume "unat sLow \<le> unat sHigh \<and>
    unat SLOPE * (unat sHigh + unat sLow) < 2 ^ 256 \<and>
    unat BASE_PRICE * (unat sHigh - unat sLow) div unat SCALE +
      unat SLOPE * (unat sHigh + unat sLow) * (unat sHigh - unat sLow)
        div (2 * unat SCALE * unat SCALE) < 2 ^ 256"
  then have 1: "unat sLow \<le> unat sHigh"
    and 2: "10000 * (unat sHigh + unat sLow) < 2 ^ 256"
    and 3: "10000 * (unat sHigh - unat sLow) div 1000000 +
         10000 * (unat sHigh + unat sLow) * (unat sHigh - unat sLow) div 2000000000000 < 2 ^ 256"
    by simp_all
  show "\<exists>r. integralCost sLow sHigh = Inr r"
    by (rule integralCost_succeeds [OF 1 2 3])
qed

theorem integralCost_floor_within_one_witness:
  "integralCost 0 1000000 = Inr 15000 \<and>
   unat (0 :: u256) \<le> unat (1000000 :: u256) \<and>
   unat SLOPE * (unat (1000000 :: u256) + unat (0 :: u256)) < 2 ^ 256 \<and>
   \<lfloor>curve_integral (unat (0 :: u256)) (unat (1000000 :: u256))\<rfloor> = 15000 \<and>
   int (unat (15000 :: u256)) \<le> \<lfloor>curve_integral (unat (0 :: u256)) (unat (1000000 :: u256))\<rfloor> \<and>
   \<lfloor>curve_integral (unat (0 :: u256)) (unat (1000000 :: u256))\<rfloor> \<le> int (unat (15000 :: u256)) + 1 \<and>
   (\<exists>r. integralCost 0 1000000 = Inr r)"
proof -
  have c: "integralCost 0 1000000 = Inr 15000"
    by (simp add: integralCost_def eval_defs)
  have f: "\<lfloor>curve_integral (unat (0 :: u256)) (unat (1000000 :: u256))\<rfloor> = 15000"
    by (simp add: floor_curve_integral)
  note T = integralCost_floor_within_one [where sLow = 0 and sHigh = 1000000 and c = 15000]
  have a: "int (unat (15000 :: u256)) \<le> \<lfloor>curve_integral (unat (0 :: u256)) (unat (1000000 :: u256))\<rfloor> \<and>
   \<lfloor>curve_integral (unat (0 :: u256)) (unat (1000000 :: u256))\<rfloor> \<le> int (unat (15000 :: u256)) + 1"
    using T [THEN conjunct1, THEN mp, OF c] by blast
  have pre: "unat (0 :: u256) \<le> unat (1000000 :: u256) \<and>
    unat SLOPE * (unat (1000000 :: u256) + unat (0 :: u256)) < 2 ^ 256 \<and>
    unat BASE_PRICE * (unat (1000000 :: u256) - unat (0 :: u256)) div unat SCALE +
      unat SLOPE * (unat (1000000 :: u256) + unat (0 :: u256)) * (unat (1000000 :: u256) - unat (0 :: u256))
        div (2 * unat SCALE * unat SCALE) < 2 ^ 256"
    by simp
  have e: "\<exists>r. integralCost 0 1000000 = Inr r"
    by (rule T [THEN conjunct2, THEN mp, OF pre])
  have p1: "unat (0 :: u256) \<le> unat (1000000 :: u256)" by simp
  have p2: "unat SLOPE * (unat (1000000 :: u256) + unat (0 :: u256)) < 2 ^ 256" by simp
  show ?thesis using c f a e p1 p2 by blast
qed

text \<open>
  The counterexample to C3 as stated: from supply 0 to 1499 the true integral is 15.001235,
  with floor 15, and the contract returns 14 (the parts are 14.99 and 0.011235).
\<close>

theorem integralCost_not_floor_counterexample:
  "integralCost 0 1499 = Inr 14 \<and>
   \<lfloor>curve_integral (unat (0 :: u256)) (unat (1499 :: u256))\<rfloor> = 15"
proof -
  have c: "integralCost 0 1499 = Inr 14"
    by (simp add: integralCost_def eval_defs)
  have f: "\<lfloor>curve_integral (unat (0 :: u256)) (unat (1499 :: u256))\<rfloor> = 15"
    by (simp add: floor_curve_integral)
  from c f show ?thesis by simp
qed

section \<open>Prices and token counts along buys and sells\<close>

lemma tokensForExactUsdc_fits:
  assumes "tokensForExactUsdc s x = Inr t"
  shows "(10000000000 + 10000 * unat (totalSupply (token s))) *
         (10000000000 + 10000 * unat (totalSupply (token s))) +
         20000000000000000 * unat x < 2 ^ 256"
proof -
  let ?n = "unat (totalSupply (token s))"
  from assms obtain m b bb cx disc where
    m: "checked_mul SLOPE (totalSupply (token s)) = Inr m" and
    b: "checked_add (SCALE * BASE_PRICE) m = Inr b" and
    bb: "checked_mul b b = Inr bb" and
    cx: "checked_mul (2 * SLOPE * SCALE * SCALE) x = Inr cx" and
    disc: "checked_add bb cx = Inr disc"
    by (auto simp: tokensForExactUsdc_def Let_def rbind_eq_Inr)
  have ub: "unat b = 10000000000 + 10000 * ?n"
    using checked_mul_unat [OF m] checked_add_unat [OF b] by simp
  have ud: "unat disc = unat b * unat b + 20000000000000000 * unat x"
    using checked_mul_unat [OF bb] checked_mul_unat [OF cx] checked_add_unat [OF disc] by simp
  show ?thesis using unat_u256_bound [of disc] unfolding ud ub .
qed

lemma tokens_supply_fits:
  assumes "tokensForExactUsdc s x = Inr t"
  shows "10000 * (unat (totalSupply (token s)) + unat t) < 2 ^ 256"
proof -
  let ?n = "unat (totalSupply (token s))"
  let ?b = "10000000000 + 10000 * ?n"
  let ?D = "?b * ?b + 20000000000000000 * unat x"
  have D: "?D < 2 ^ 256" by (rule tokensForExactUsdc_fits [OF assms])
  have b: "?b < 2 ^ 256"
  proof -
    have "?b \<le> ?b * ?b" by simp
    then show ?thesis using D by linarith
  qed
  have t: "unat t = (sqrt_floor ?D - ?b) div 10000" by (rule tokensForExactUsdc_unat [OF assms])
  have "10000 * unat t \<le> sqrt_floor ?D - ?b" unfolding t by simp
  moreover have "sqrt_floor ?D \<le> ?D" by (rule sqrt_floor_le)
  ultimately have "10000 * unat t + ?b \<le> max ?D ?b" by linarith
  then have "10000 * unat t + ?b < 2 ^ 256" using D b by simp
  then show ?thesis by (simp add: algebra_simps)
qed

lemma integralCost_fits:
  assumes "integralCost lo hi = Inr c"
  shows "10000 * (unat hi + unat lo) < 2 ^ 256"
proof -
  from assms obtain sm m where
    sm: "checked_add hi lo = Inr sm" and
    m: "checked_mul SLOPE sm = Inr m"
    by (auto simp: integralCost_def rbind_eq_Inr)
  from m have "unat SLOPE * unat sm < 2 ^ 256" by (simp add: checked_mul_Inr)
  then show ?thesis using checked_add_unat [OF sm] by simp
qed

lemma getPrice_Inr:
  assumes "10000 * unat (totalSupply (token s)) < 2 ^ 256"
  shows "\<exists>p. getPrice s = Inr p \<and> unat p = 10000 + 10000 * unat (totalSupply (token s)) div 1000000"
proof -
  let ?n = "unat (totalSupply (token s))"
  have m: "checked_mul SLOPE (totalSupply (token s)) = Inr (SLOPE * totalSupply (token s))"
    using assms by (simp add: checked_mul_def)
  have um: "unat (SLOPE * totalSupply (token s)) = 10000 * ?n"
    using checked_mul_unat [OF m] by simp
  have ud: "unat (SLOPE * totalSupply (token s) div SCALE) = 10000 * ?n div 1000000"
    by (simp add: unat_div um)
  have "10000 * ?n div 1000000 \<le> (2 ^ 256 - 1) div 1000000"
    using assms by (intro div_le_mono) simp
  then have "10000 + 10000 * ?n div 1000000 < 2 ^ 256" by simp
  then obtain p where p: "checked_add BASE_PRICE (SLOPE * totalSupply (token s) div SCALE) = Inr p"
    by (simp add: checked_add_def ud)
  have "unat p = 10000 + 10000 * ?n div 1000000"
    using checked_add_unat [OF p] by (simp add: ud)
  moreover have "getPrice s = Inr p" by (simp add: getPrice_def m p)
  ultimately show ?thesis by blast
qed

lemma price_step:
  fixes n k :: nat
  shows "10000 * n div 1000000 \<le> 10000 * (n + k) div 1000000"
    and "100 \<le> k \<Longrightarrow> 10000 * n div 1000000 < 10000 * (n + k) div 1000000"
proof -
  show "10000 * n div 1000000 \<le> 10000 * (n + k) div 1000000"
    by (intro div_le_mono) simp
  assume "100 \<le> k"
  then have "10000 * n + 1000000 \<le> 10000 * (n + k)" by simp
  then have "(10000 * n + 1000000) div 1000000 \<le> 10000 * (n + k) div 1000000"
    by (rule div_le_mono)
  then show "10000 * n div 1000000 < 10000 * (n + k) div 1000000" by simp
qed

lemma sqrt_floor_ex3: "sqrt_floor 405700000000000000000 = 20141995928"
  by (rule sqrt_floor_unique) simp_all

lemma sqrt_floor_ex4: "sqrt_floor 100039800980100000000 = 10001989851"
  by (rule sqrt_floor_unique) simp_all

lemma sqrt_floor_ex5: "sqrt_floor 40099997508291600000000 = 200249837723"
  by (rule sqrt_floor_unique) simp_all

lemmas tokens_eval =
  tokensForExactUsdc_def curve0_fields empty_ledger_def eval_defs Math_sqrt_def
  sqrt_floor_ex1 sqrt_floor_ex2 sqrt_floor_ex3 sqrt_floor_ex4 sqrt_floor_ex5

lemmas call_eval =
  buy_def sell_def getSellReturn_def integralCost_def curve0_fields funded_ledger_def
  empty_ledger_def eval_defs

lemma buy_ex3:
  "buy 1 15285 curve0 =
     Inr (1014199,
          curve0\<lparr>usdc := funded_ledger\<lparr>balanceOf :=
                    (balanceOf funded_ledger)(1 := 999999984715, 1000 := 15285)\<rparr>,
                 token := empty_ledger\<lparr>totalSupply := 1014199,
                    balanceOf := (\<lambda>a. 0)(1 := 1014199)\<rparr>,
                 reserveBalance := 15285,
                 curve_events := [TokensBought 1 15285 1014199]\<rparr>)"
proof -
  have "tokensForExactUsdc curve0 15285 = Inr 1014199" by (simp add: tokens_eval)
  then show ?thesis by (simp add: call_eval)
qed

lemma sell_ex3:
  "sell 1 99
     (curve0\<lparr>usdc := funded_ledger\<lparr>balanceOf :=
                    (balanceOf funded_ledger)(1 := 999999984715, 1000 := 15285)\<rparr>,
                 token := empty_ledger\<lparr>totalSupply := 1014199,
                    balanceOf := (\<lambda>a. 0)(1 := 1014199)\<rparr>,
                 reserveBalance := 15285,
                 curve_events := [TokensBought 1 15285 1014199]\<rparr>) =
     Inr (1,
          curve0\<lparr>usdc := funded_ledger\<lparr>balanceOf :=
                    (balanceOf funded_ledger)(1000 := 15284, 1 := 999999984716)\<rparr>,
                 token := empty_ledger\<lparr>totalSupply := 1014100,
                    balanceOf := (\<lambda>a. 0)(1 := 1014100)\<rparr>,
                 reserveBalance := 15284,
                 curve_events := [TokensBought 1 15285 1014199, TokensSold 1 99 1]\<rparr>)"
  by (simp add: call_eval)

lemma buy_ex1b:
  "buy 2 1
     (curve0\<lparr>usdc := funded_ledger\<lparr>balanceOf :=
                    (balanceOf funded_ledger)(1 := 999999999999, 1000 := 1)\<rparr>,
                 token := empty_ledger\<lparr>totalSupply := 99, balanceOf := (\<lambda>a. 0)(1 := 99)\<rparr>,
                 reserveBalance := 1,
                 curve_events := [TokensBought 1 1 99]\<rparr>) =
     Inr (99,
          curve0\<lparr>usdc := funded_ledger\<lparr>balanceOf :=
                    (balanceOf funded_ledger)(1 := 999999999999, 2 := 999999999999, 1000 := 2)\<rparr>,
                 token := empty_ledger\<lparr>totalSupply := 198,
                    balanceOf := (\<lambda>a. 0)(1 := 99, 2 := 99)\<rparr>,
                 reserveBalance := 2,
                 curve_events := [TokensBought 1 1 99, TokensBought 2 1 99]\<rparr>)"
proof -
  have "tokensForExactUsdc
     (curve0\<lparr>usdc := funded_ledger\<lparr>balanceOf :=
                    (balanceOf funded_ledger)(1 := 999999999999, 1000 := 1)\<rparr>,
                 token := empty_ledger\<lparr>totalSupply := 99, balanceOf := (\<lambda>a. 0)(1 := 99)\<rparr>,
                 reserveBalance := 1,
                 curve_events := [TokensBought 1 1 99]\<rparr>) 1 = Inr 99"
    by (simp add: tokens_eval)
  then show ?thesis by (simp add: call_eval)
qed

lemma buy_ex2b:
  "buy 2 1000000
     (curve0\<lparr>usdc := funded_ledger\<lparr>balanceOf :=
                    (balanceOf funded_ledger)(1 := 999999000000, 1000 := 1000000)\<rparr>,
                 token := empty_ledger\<lparr>totalSupply := 13177446,
                    balanceOf := (\<lambda>a. 0)(1 := 13177446)\<rparr>,
                 reserveBalance := 1000000,
                 curve_events := [TokensBought 1 1000000 13177446]\<rparr>) =
     Inr (5847537,
          curve0\<lparr>usdc := funded_ledger\<lparr>balanceOf :=
                    (balanceOf funded_ledger)(1 := 999999000000, 2 := 999999000000, 1000 := 2000000)\<rparr>,
                 token := empty_ledger\<lparr>totalSupply := 19024983,
                    balanceOf := (\<lambda>a. 0)(1 := 13177446, 2 := 5847537)\<rparr>,
                 reserveBalance := 2000000,
                 curve_events := [TokensBought 1 1000000 13177446, TokensBought 2 1000000 5847537]\<rparr>)"
proof -
  have "tokensForExactUsdc
     (curve0\<lparr>usdc := funded_ledger\<lparr>balanceOf :=
                    (balanceOf funded_ledger)(1 := 999999000000, 1000 := 1000000)\<rparr>,
                 token := empty_ledger\<lparr>totalSupply := 13177446,
                    balanceOf := (\<lambda>a. 0)(1 := 13177446)\<rparr>,
                 reserveBalance := 1000000,
                 curve_events := [TokensBought 1 1000000 13177446]\<rparr>) 1000000 = Inr 5847537"
    by (simp add: tokens_eval)
  then show ?thesis by (simp add: call_eval)
qed

lemma getPrice_eval:
  "getPrice s = rbind (checked_mul 10000 (totalSupply (token s))) (\<lambda>m. checked_add 10000 (m div 1000000))"
  by (simp add: getPrice_def SLOPE_def BASE_PRICE_def SCALE_def)

lemma sqrt_floor_mono_shift:
  fixes b d X :: nat
  shows "sqrt_floor ((b + d) * (b + d) + X) - (b + d) \<le> sqrt_floor (b * b + X) - b"
proof -
  define r where "r = sqrt_floor (b * b + X)"
  define r' where "r' = sqrt_floor ((b + d) * (b + d) + X)"
  have r: "b * b + X < (r + 1) * (r + 1)" unfolding r_def using sqrt_floor_bounds by blast
  have r': "r' * r' \<le> (b + d) * (b + d) + X" unfolding r'_def using sqrt_floor_bounds by blast
  have br: "b \<le> r"
  proof (rule ccontr)
    assume "\<not> b \<le> r"
    then have "r + 1 \<le> b" by simp
    then have "(r + 1) * (r + 1) \<le> b * b" by (intro mult_le_mono)
    with r show False by linarith
  qed
  have "r' \<le> r + d"
  proof (rule ccontr)
    assume "\<not> r' \<le> r + d"
    then have "r + d + 1 \<le> r'" by simp
    then have "(r + d + 1) * (r + d + 1) \<le> r' * r'" by (intro mult_le_mono)
    with r' have le: "(r + d + 1) * (r + d + 1) \<le> (b + d) * (b + d) + X" by linarith
    have e1: "(r + d + 1) * (r + d + 1) = (r + 1) * (r + 1) + 2 * (d * (r + 1)) + d * d"
      by (simp add: algebra_simps)
    have e2: "(b + d) * (b + d) + X = b * b + X + 2 * (d * b) + d * d"
      by (simp add: algebra_simps)
    have "b \<le> r + 1" using br by simp
    then have "d * b \<le> d * (r + 1)" by (rule mult_le_mono2)
    with le r show False unfolding e1 e2 by linarith
  qed
  then show ?thesis unfolding r_def r'_def by linarith
qed

text \<open>
  C6 (amended).  \<open>getPrice\<close> returns exactly \<open>BASE_PRICE\<close> when the total supply is zero.
  The specification's statement that it is strictly greater after every successful buy and strictly smaller
  after every successful sell fails, because \<open>getPrice\<close> divides by \<open>SCALE\<close> and moves
  only every \<open>SCALE / SLOPE = 100\<close> raw token units.  What holds for every state: around a
  successful buy \<open>getPrice\<close> returns before and after, the value after is at least the
  value before, and strictly greater when the buy mints at least 100 raw units; around a
  successful sell the value after is at most the value before, and strictly smaller when
  at least 100 raw units are sold.
\<close>

theorem getPrice_steps:
  "(totalSupply (token s) = 0 \<longrightarrow> getPrice s = Inr BASE_PRICE) \<and>
   (buy c x s = Inr (t, s') \<longrightarrow>
      (\<exists>p p'. getPrice s = Inr p \<and> getPrice s' = Inr p' \<and> p \<le> p' \<and> (100 \<le> t \<longrightarrow> p < p'))) \<and>
   (sell c' v s = Inr (u, s'') \<longrightarrow>
      (\<exists>p p'. getPrice s = Inr p \<and> getPrice s'' = Inr p' \<and> p' \<le> p \<and> (100 \<le> v \<longrightarrow> p' < p)))"
proof (intro conjI impI)
  assume "totalSupply (token s) = 0"
  then show "getPrice s = Inr BASE_PRICE"
    by (simp add: getPrice_def checked_mul_def checked_add_def BASE_PRICE_def SCALE_def)
next
  assume b: "buy c x s = Inr (t, s')"
  let ?n = "unat (totalSupply (token s))"
  note f = buy_Inr [OF b]
  have fit': "10000 * unat (totalSupply (token s')) < 2 ^ 256"
    unfolding f(4) by (rule tokens_supply_fits [OF f(1)])
  then have fit: "10000 * ?n < 2 ^ 256" unfolding f(4) by simp
  from getPrice_Inr [OF fit] obtain p where
    p: "getPrice s = Inr p" "unat p = 10000 + 10000 * ?n div 1000000" by blast
  from getPrice_Inr [OF fit'] obtain p' where
    p': "getPrice s' = Inr p'" "unat p' = 10000 + 10000 * (?n + unat t) div 1000000"
    unfolding f(4) by blast
  have "p \<le> p'" using price_step(1) [of ?n "unat t"] by (simp add: word_le_nat_alt p p')
  moreover have "100 \<le> t \<longrightarrow> p < p'"
    using price_step(2) [of "unat t" ?n] by (simp add: word_le_nat_alt word_less_nat_alt p p')
  ultimately show "\<exists>p p'. getPrice s = Inr p \<and> getPrice s' = Inr p' \<and> p \<le> p' \<and> (100 \<le> t \<longrightarrow> p < p')"
    using p(1) p'(1) by blast
next
  assume b: "sell c' v s = Inr (u, s'')"
  let ?n = "unat (totalSupply (token s))"
  let ?m = "unat (totalSupply (token s''))"
  note f = sell_Inr [OF b]
  have nm: "?n = ?m + unat v" using f(3) f(5) by simp
  have "10000 * (?n + unat (totalSupply (token s) - v)) < 2 ^ 256"
    by (rule integralCost_fits [OF f(4)])
  then have fit: "10000 * ?n < 2 ^ 256" by simp
  then have fit': "10000 * ?m < 2 ^ 256" unfolding nm by simp
  from getPrice_Inr [OF fit] obtain p where
    p: "getPrice s = Inr p" "unat p = 10000 + 10000 * (?m + unat v) div 1000000"
    unfolding nm by blast
  from getPrice_Inr [OF fit'] obtain p' where
    p': "getPrice s'' = Inr p'" "unat p' = 10000 + 10000 * ?m div 1000000" by blast
  have "p' \<le> p" using price_step(1) [of ?m "unat v"] by (simp add: word_le_nat_alt p p')
  moreover have "100 \<le> v \<longrightarrow> p' < p"
    using price_step(2) [of "unat v" ?m] by (simp add: word_le_nat_alt word_less_nat_alt p p')
  ultimately show "\<exists>p p'. getPrice s = Inr p \<and> getPrice s'' = Inr p' \<and> p' \<le> p \<and> (100 \<le> v \<longrightarrow> p' < p)"
    using p(1) p'(1) by blast
qed

theorem getPrice_steps_witness:
  "totalSupply (token curve0) = 0 \<and> getPrice curve0 = Inr BASE_PRICE \<and>
   returned (buy 1 1000000) curve0 = Inr 13177446 \<and> (100 :: u256) \<le> 13177446 \<and>
   getPrice (state_after (buy 1 1000000) curve0) = Inr 141774 \<and>
   (\<exists>p p'. getPrice curve0 = Inr p \<and> getPrice (state_after (buy 1 1000000) curve0) = Inr p' \<and>
      p < p') \<and>
   returned (sell 1 13177446) (state_after (buy 1 1000000) curve0) = Inr 999999 \<and>
   getPrice (state_after (sell 1 13177446) (state_after (buy 1 1000000) curve0)) = Inr 10000 \<and>
   (\<exists>p p'. getPrice (state_after (buy 1 1000000) curve0) = Inr p \<and>
      getPrice (state_after (sell 1 13177446) (state_after (buy 1 1000000) curve0)) = Inr p' \<and>
      p' < p)"
proof -
  let ?s1 = "state_after (buy 1 1000000) curve0"
  let ?s2 = "state_after (sell 1 13177446) ?s1"
  note b = transact_Inr [of "buy 1 1000000" curve0, OF buy_ex2]
  note s = transact_Inr [of "sell 1 13177446", OF sell_ex2]
  have z: "totalSupply (token curve0) = 0" by (simp add: curve0_fields empty_ledger_def)
  have h: "(100 :: u256) \<le> 13177446" by simp
  have B: "buy 1 1000000 curve0 = Inr (13177446, ?s1)" using buy_ex2 by (simp add: b)
  have S: "sell 1 13177446 ?s1 = Inr (999999, ?s2)" using sell_ex2 by (simp add: b s)
  note T1 = getPrice_steps [where s = curve0 and c = 1 and x = 1000000 and t = 13177446
      and s' = ?s1]
  note T2 = getPrice_steps [where s = ?s1 and c' = 1 and v = 13177446 and u = 999999
      and s'' = ?s2]
  have 1: "getPrice curve0 = Inr BASE_PRICE" using T1 z by blast
  have "\<exists>p p'. getPrice curve0 = Inr p \<and> getPrice ?s1 = Inr p' \<and> p \<le> p' \<and>
      ((100 :: u256) \<le> 13177446 \<longrightarrow> p < p')"
    using T1 B by blast
  then have 2: "\<exists>p p'. getPrice curve0 = Inr p \<and> getPrice ?s1 = Inr p' \<and> p < p'"
    using h by blast
  have "\<exists>p p'. getPrice ?s1 = Inr p \<and> getPrice ?s2 = Inr p' \<and> p' \<le> p \<and>
      ((100 :: u256) \<le> 13177446 \<longrightarrow> p' < p)"
    using T2 S by blast
  then have 3: "\<exists>p p'. getPrice ?s1 = Inr p \<and> getPrice ?s2 = Inr p' \<and> p' < p"
    using h by blast
  have 4: "getPrice ?s1 = Inr 141774"
    by (simp add: b getPrice_eval eval_defs)
  have 5: "getPrice ?s2 = Inr 10000"
    by (simp add: b s getPrice_eval eval_defs)
  have 6: "returned (buy 1 1000000) curve0 = Inr 13177446" by (simp add: b)
  have 7: "returned (sell 1 13177446) ?s1 = Inr 999999" by (simp add: b s)
  show ?thesis using z 1 2 3 4 5 6 7 h by blast
qed

text \<open>
  The counterexample to C6 as stated: a buy with 1 raw unit of USDC mints 99 raw tokens and
  leaves the price at 10000; after a buy with 15285 raw units (supply 1014199, price 20141)
  a sell of 99 raw tokens succeeds, returns 1, and leaves the price at 20141.
\<close>

theorem getPrice_not_strict_counterexample:
  "returned (buy 1 1) curve0 = Inr 99 \<and>
   getPrice curve0 = Inr 10000 \<and>
   getPrice (state_after (buy 1 1) curve0) = Inr 10000 \<and>
   returned (buy 1 15285) curve0 = Inr 1014199 \<and>
   getPrice (state_after (buy 1 15285) curve0) = Inr 20141 \<and>
   returned (sell 1 99) (state_after (buy 1 15285) curve0) = Inr 1 \<and>
   getPrice (state_after (sell 1 99) (state_after (buy 1 15285) curve0)) = Inr 20141"
proof -
  note b1 = transact_Inr [of "buy 1 1" curve0, OF buy_ex1]
  note b3 = transact_Inr [of "buy 1 15285" curve0, OF buy_ex3]
  note s3 = transact_Inr [of "sell 1 99", OF sell_ex3]
  have 0: "getPrice curve0 = Inr 10000"
    by (simp add: getPrice_eval curve0_fields empty_ledger_def eval_defs)
  have 1: "getPrice (state_after (buy 1 1) curve0) = Inr 10000"
    by (simp add: b1 getPrice_eval eval_defs)
  have 2: "getPrice (state_after (buy 1 15285) curve0) = Inr 20141"
    by (simp add: b3 getPrice_eval eval_defs)
  have 3: "getPrice (state_after (sell 1 99) (state_after (buy 1 15285) curve0)) = Inr 20141"
    by (simp add: b3 s3 getPrice_eval eval_defs)
  show ?thesis using 0 1 2 3 by (simp add: b1 b3 s3)
qed

lemma sqrt_floor_strict_shift:
  fixes b X u :: nat
  assumes u: "u = (sqrt_floor (b * b + X) - b) div 10000"
    and cond: "b + 10000 \<le> 10000 * (u * (u - 1))"
  shows "(sqrt_floor ((b + 10000 * u) * (b + 10000 * u) + X) - (b + 10000 * u)) div 10000 < u"
proof -
  define T where "T = 10000 * u"
  define q where "q = u * (u - 1)"
  define r where "r = sqrt_floor (b * b + X)"
  define r' where "r' = sqrt_floor ((b + T) * (b + T) + X)"
  have qu: "q + u = u * u" unfolding q_def by (cases u) simp_all
  have upos: "0 < u" using cond by (cases u) simp_all
  have "r - b < 10000 + 10000 * ((r - b) div 10000)" by (rule dividend_less_times_div) simp
  then have "r - b < 10000 + T" unfolding T_def u r_def .
  then have r1: "r + 1 \<le> b + T + 10000" by linarith
  have "b * b + X < (r + 1) * (r + 1)" unfolding r_def using sqrt_floor_bounds by blast
  also have "\<dots> \<le> (b + T + 10000) * (b + T + 10000)" using r1 by (intro mult_le_mono)
  also have "\<dots> = b * b + T * T + 100000000 + 2 * (b * T) + 20000 * b + 20000 * T"
    by (simp add: algebra_simps)
  finally have X: "X < T * T + 100000000 + 2 * (b * T) + 20000 * b + 20000 * T" by linarith
  have "20000 * (b + 10000) \<le> 20000 * (10000 * q)"
    using cond unfolding q_def by (rule mult_le_mono2)
  then have c2: "20000 * b + 200000000 \<le> 200000000 * q" by simp
  have "T * T = 100000000 * (u * u)" unfolding T_def by (simp add: algebra_simps)
  also have "\<dots> = 100000000 * q + 100000000 * u" unfolding qu [symmetric] by (simp add: algebra_simps)
  finally have TT: "T * T = 100000000 * q + 100000000 * u" .
  have T20: "20000 * T = 200000000 * u" unfolding T_def by simp
  have TT3: "3 * (T * T) = 300000000 * q + 300000000 * u" unfolding TT by simp
  have X': "X < 2 * (b * T) + 3 * (T * T)"
    using X c2 unfolding T20 TT3 unfolding TT by linarith
  have e1: "(b + T) * (b + T) = b * b + 2 * (b * T) + T * T" by (simp add: algebra_simps)
  have e2: "(b + 2 * T) * (b + 2 * T) = b * b + 4 * (b * T) + 4 * (T * T)"
    by (simp add: algebra_simps)
  have G: "(b + T) * (b + T) + X < (b + 2 * T) * (b + 2 * T)"
    unfolding e1 e2 using X' by linarith
  have r'r': "r' * r' \<le> (b + T) * (b + T) + X" unfolding r'_def using sqrt_floor_bounds by blast
  have "r' < b + 2 * T"
  proof (rule ccontr)
    assume "\<not> r' < b + 2 * T"
    then have "b + 2 * T \<le> r'" by simp
    then have "(b + 2 * T) * (b + 2 * T) \<le> r' * r'" by (intro mult_le_mono)
    with r'r' G show False by linarith
  qed
  then have "r' - (b + T) < u * 10000" using upos unfolding T_def by linarith
  then have "(r' - (b + T)) div 10000 < u" by (simp add: div_less_iff_less_mult)
  then show ?thesis unfolding r'_def T_def .
qed

lemma sqrt_floor_ex6: "sqrt_floor 200100000000000000000000 = 447325384926"
  by (rule sqrt_floor_unique) simp_all

lemma sqrt_floor_ex7: "sqrt_floor 400099995592144400000000 = 632534580550"
  by (rule sqrt_floor_unique) simp_all

lemma buy_ex8:
  "buy 1 10000000 curve0 =
     Inr (43732538,
          curve0\<lparr>usdc := funded_ledger\<lparr>balanceOf :=
                    (balanceOf funded_ledger)(1 := 999990000000, 1000 := 10000000)\<rparr>,
                 token := empty_ledger\<lparr>totalSupply := 43732538,
                    balanceOf := (\<lambda>a. 0)(1 := 43732538)\<rparr>,
                 reserveBalance := 10000000,
                 curve_events := [TokensBought 1 10000000 43732538]\<rparr>)"
proof -
  have "tokensForExactUsdc curve0 10000000 = Inr 43732538"
    by (simp add: tokens_eval sqrt_floor_ex6)
  then show ?thesis by (simp add: call_eval)
qed

lemma buy_ex8b:
  "buy 2 10000000
     (curve0\<lparr>usdc := funded_ledger\<lparr>balanceOf :=
                    (balanceOf funded_ledger)(1 := 999990000000, 1000 := 10000000)\<rparr>,
                 token := empty_ledger\<lparr>totalSupply := 43732538,
                    balanceOf := (\<lambda>a. 0)(1 := 43732538)\<rparr>,
                 reserveBalance := 10000000,
                 curve_events := [TokensBought 1 10000000 43732538]\<rparr>) =
     Inr (18520920,
          curve0\<lparr>usdc := funded_ledger\<lparr>balanceOf :=
                    (balanceOf funded_ledger)(1 := 999990000000, 2 := 999990000000, 1000 := 20000000)\<rparr>,
                 token := empty_ledger\<lparr>totalSupply := 62253458,
                    balanceOf := (\<lambda>a. 0)(1 := 43732538, 2 := 18520920)\<rparr>,
                 reserveBalance := 20000000,
                 curve_events := [TokensBought 1 10000000 43732538, TokensBought 2 10000000 18520920]\<rparr>)"
proof -
  have "tokensForExactUsdc
     (curve0\<lparr>usdc := funded_ledger\<lparr>balanceOf :=
                    (balanceOf funded_ledger)(1 := 999990000000, 1000 := 10000000)\<rparr>,
                 token := empty_ledger\<lparr>totalSupply := 43732538,
                    balanceOf := (\<lambda>a. 0)(1 := 43732538)\<rparr>,
                 reserveBalance := 10000000,
                 curve_events := [TokensBought 1 10000000 43732538]\<rparr>) 10000000 = Inr 18520920"
    by (simp add: tokens_eval sqrt_floor_ex7)
  then show ?thesis by (simp add: call_eval)
qed

text \<open>
  C7 (amended).  The specification's statement that the second of two successive successful
  buys of the same USDC amount mints strictly fewer tokens fails only for dust amounts,
  where both token counts round to the same number.  What holds for every state and every
  amount: the second buy never mints more tokens than the first, and it mints strictly
  fewer whenever \<open>SCALE * BASE_PRICE / SLOPE + supply < t1 * (t1 - 1)\<close>, where \<open>supply\<close> is
  the total supply before the first buy and \<open>t1\<close> the number of raw token units the first
  buy mints (from an empty curve: whenever the first buy mints more than 1000 raw units,
  a thousandth of a token).  The buys of 1 USDC and of 10 USDC that the repository's tests
  make from the deployed curve satisfy the condition.
\<close>

theorem second_equal_buy_mints_no_more:
  assumes "buy c1 x s = Inr (t1, s1)" and "buy c2 x s1 = Inr (t2, s2)"
  shows "t2 \<le> t1 \<and>
     (unat SCALE * unat BASE_PRICE div unat SLOPE + unat (totalSupply (token s))
        < unat t1 * (unat t1 - 1) \<longrightarrow> t2 < t1)"
proof -
  let ?n = "unat (totalSupply (token s))"
  let ?b = "10000000000 + 10000 * ?n"
  let ?X = "20000000000000000 * unat x"
  note f1 = buy_Inr [OF assms(1)]
  note f2 = buy_Inr [OF assms(2)]
  have t1: "unat t1 = (sqrt_floor (?b * ?b + ?X) - ?b) div 10000"
    by (rule tokensForExactUsdc_unat [OF f1(1)])
  have b': "10000000000 + 10000 * unat (totalSupply (token s1)) = ?b + 10000 * unat t1"
    unfolding f1(4) by simp
  have t2: "unat t2 = (sqrt_floor ((?b + 10000 * unat t1) * (?b + 10000 * unat t1) + ?X)
      - (?b + 10000 * unat t1)) div 10000"
    using tokensForExactUsdc_unat [OF f2(1)] unfolding b' .
  have "unat t2 \<le> unat t1"
    unfolding t2 unfolding t1 by (intro div_le_mono sqrt_floor_mono_shift)
  then have le: "t2 \<le> t1" by (simp add: word_le_nat_alt)
  have strict: "t2 < t1"
    if c: "unat SCALE * unat BASE_PRICE div unat SLOPE + ?n < unat t1 * (unat t1 - 1)"
  proof -
    from c have "1000000 + ?n + 1 \<le> unat t1 * (unat t1 - 1)" by simp
    then have "10000 * (1000000 + ?n + 1) \<le> 10000 * (unat t1 * (unat t1 - 1))"
      by (rule mult_le_mono2)
    then have cond: "?b + 10000 \<le> 10000 * (unat t1 * (unat t1 - 1))" by simp
    have "unat t2 < unat t1"
      unfolding t2 by (rule sqrt_floor_strict_shift [OF t1 cond])
    then show ?thesis by (simp add: word_less_nat_alt)
  qed
  from le strict show ?thesis by blast
qed

theorem second_equal_buy_mints_no_more_witness:
  "returned (buy 1 1000000) curve0 = Inr 13177446 \<and>
   returned (buy 2 1000000) (state_after (buy 1 1000000) curve0) = Inr 5847537 \<and>
   unat SCALE * unat BASE_PRICE div unat SLOPE + unat (totalSupply (token curve0))
     < unat (13177446 :: u256) * (unat (13177446 :: u256) - 1) \<and>
   (5847537 :: u256) \<le> 13177446 \<and> (5847537 :: u256) < 13177446 \<and>
   returned (buy 1 10000000) curve0 = Inr 43732538 \<and>
   returned (buy 2 10000000) (state_after (buy 1 10000000) curve0) = Inr 18520920 \<and>
   unat SCALE * unat BASE_PRICE div unat SLOPE + unat (totalSupply (token curve0))
     < unat (43732538 :: u256) * (unat (43732538 :: u256) - 1) \<and>
   (18520920 :: u256) < 43732538"
proof -
  note b = transact_Inr [of "buy 1 1000000" curve0, OF buy_ex2]
  note b2 = transact_Inr [of "buy 2 1000000", OF buy_ex2b]
  note c = transact_Inr [of "buy 1 10000000" curve0, OF buy_ex8]
  note c2 = transact_Inr [of "buy 2 10000000", OF buy_ex8b]
  have h1: "unat SCALE * unat BASE_PRICE div unat SLOPE + unat (totalSupply (token curve0))
     < unat (13177446 :: u256) * (unat (13177446 :: u256) - 1)"
    by (simp add: curve0_fields empty_ledger_def)
  have h2: "unat SCALE * unat BASE_PRICE div unat SLOPE + unat (totalSupply (token curve0))
     < unat (43732538 :: u256) * (unat (43732538 :: u256) - 1)"
    by (simp add: curve0_fields empty_ledger_def)
  note T1 = second_equal_buy_mints_no_more [OF buy_ex2 buy_ex2b]
  note T2 = second_equal_buy_mints_no_more [OF buy_ex8 buy_ex8b]
  have 1: "(5847537 :: u256) \<le> 13177446" by (rule T1 [THEN conjunct1])
  have 2: "(5847537 :: u256) < 13177446" by (rule T1 [THEN conjunct2, THEN mp, OF h1])
  have 3: "(18520920 :: u256) < 43732538" by (rule T2 [THEN conjunct2, THEN mp, OF h2])
  have r1: "returned (buy 1 1000000) curve0 = Inr 13177446" by (simp add: b)
  have r2: "returned (buy 2 1000000) (state_after (buy 1 1000000) curve0) = Inr 5847537"
    by (simp add: b b2)
  have r3: "returned (buy 1 10000000) curve0 = Inr 43732538" by (simp add: c)
  have r4: "returned (buy 2 10000000) (state_after (buy 1 10000000) curve0) = Inr 18520920"
    by (simp add: c c2)
  show ?thesis by (intro conjI r1 r2 h1 1 2 r3 r4 h2 3)
qed

text \<open>
  The counterexample to C7 as stated: from the deployed curve, account 1 buys with 1 raw unit
  of USDC and receives 99 raw tokens; account 2 then buys with 1 raw unit and receives 99 too
  (here \<open>t1 * (t1 - 1) = 9702\<close> is below \<open>SCALE * BASE_PRICE / SLOPE = 1000000\<close>).
\<close>

theorem second_equal_buy_same_counterexample:
  "returned (buy 1 1) curve0 = Inr 99 \<and>
   returned (buy 2 1) (state_after (buy 1 1) curve0) = Inr 99"
proof -
  note b = transact_Inr [of "buy 1 1" curve0, OF buy_ex1]
  note b2 = transact_Inr [of "buy 2 1", OF buy_ex1b]
  show ?thesis by (simp add: b b2)
qed

section \<open>The vault: conversions, deposits and redemptions\<close>

lemma vault0_fields:
  "vault_address vault0 = 2000" "owner vault0 = 7" "USDC vault0 = funded_ledger"
  "shares vault0 = empty_ledger" "managedAssets vault0 = 0" "vault_events vault0 = []"
  by (simp_all add: vault0_def)

lemmas vault_eval =
  deposit_def redeem_def deployFunds_def returnFunds_def reportPnL_def donate_def
  convertToShares_def convertToAssets_def totalAssets_def availableLiquidity_def
  vault0_fields funded_ledger_def empty_ledger_def eval_defs checked_neg_def

lemmas run_eval = state_after_def returned_def transact_def

lemma convertToShares_empty:
  assumes "totalSupply (shares s) = 0" and "totalAssets s = Inr 0"
  shows "convertToShares s a = Inr a"
  using assms by (simp add: convertToShares_def checked_add_def VIRTUAL_OFFSET_def mulDiv_same)

lemma totalAssets_vault0: "totalAssets vault0 = Inr 0"
  by (simp add: vault_eval)

lemma transferFrom_ex1:
  "erc20_transferFrom 2000 1 2000 1000000000 funded_ledger =
     Inr (funded_ledger\<lparr>balanceOf := (balanceOf funded_ledger)(1 := 999000000000, 2000 := 1000000000)\<rparr>)"
  by (simp add: funded_ledger_def eval_defs)

text \<open>
  C4.  When the vault is empty (no shares outstanding and total assets zero),
  \<open>convertToShares a\<close> returns exactly \<open>a\<close> for every amount \<open>a\<close>; so a first deposit
  of \<open>a\<close>, whenever it succeeds, mints exactly \<open>a\<close> shares, and it succeeds for every
  \<open>a > 0\<close> and set receiver once the USDC transfer from the caller goes through.
\<close>

theorem first_deposit_mints_amount:
  assumes "totalSupply (shares s) = 0" and "totalAssets s = Inr 0"
  shows "convertToShares s a = Inr a \<and>
     (\<forall>sh s'. deposit msg_sender a receiver s = Inr (sh, s') \<longrightarrow> sh = a) \<and>
     (a \<noteq> 0 \<and> receiver \<noteq> 0 \<and>
      erc20_transferFrom (vault_address s) msg_sender (vault_address s) a (USDC s) = Inr u \<longrightarrow>
        deposit msg_sender a receiver s =
          Inr (a, s\<lparr>USDC := u,
                    shares := (shares s)\<lparr>totalSupply := a,
                      balanceOf := (balanceOf (shares s))(receiver := balanceOf (shares s) receiver + a)\<rparr>,
                    vault_events := vault_events s @ [Deposit msg_sender receiver a a]\<rparr>))"
proof -
  have c: "convertToShares s a = Inr a" by (rule convertToShares_empty [OF assms])
  have m: "receiver \<noteq> 0 \<Longrightarrow> erc20_mint receiver a (shares s) =
      Inr ((shares s)\<lparr>totalSupply := a,
             balanceOf := (balanceOf (shares s))(receiver := balanceOf (shares s) receiver + a)\<rparr>)"
    using assms(1) unat_u256_bound [of a] by (simp add: erc20_mint_Inr)
  have 2: "\<forall>sh s'. deposit msg_sender a receiver s = Inr (sh, s') \<longrightarrow> sh = a"
    by (auto simp: deposit_def c rbind_eq_Inr split: if_splits)
  have 3: "a \<noteq> 0 \<and> receiver \<noteq> 0 \<and>
      erc20_transferFrom (vault_address s) msg_sender (vault_address s) a (USDC s) = Inr u \<longrightarrow>
        deposit msg_sender a receiver s =
          Inr (a, s\<lparr>USDC := u,
                    shares := (shares s)\<lparr>totalSupply := a,
                      balanceOf := (balanceOf (shares s))(receiver := balanceOf (shares s) receiver + a)\<rparr>,
                    vault_events := vault_events s @ [Deposit msg_sender receiver a a]\<rparr>)"
    using m by (simp add: deposit_def c)
  from c 2 3 show ?thesis by blast
qed

theorem first_deposit_mints_amount_witness:
  "totalSupply (shares vault0) = 0 \<and> totalAssets vault0 = Inr 0 \<and>
   convertToShares vault0 1000000000 = Inr 1000000000 \<and>
   returned (deposit 1 1000000000 1) vault0 = Inr 1000000000 \<and>
   totalSupply (shares (state_after (deposit 1 1000000000 1) vault0)) = 1000000000 \<and>
   balanceOf (shares (state_after (deposit 1 1000000000 1) vault0)) 1 = 1000000000"
proof -
  have z: "totalSupply (shares vault0) = 0" by (simp add: vault0_fields empty_ledger_def)
  have t: "erc20_transferFrom (vault_address vault0) 1 (vault_address vault0) 1000000000 (USDC vault0) =
     Inr (funded_ledger\<lparr>balanceOf := (balanceOf funded_ledger)(1 := 999000000000, 2000 := 1000000000)\<rparr>)"
    using transferFrom_ex1 by (simp add: vault0_fields)
  note T = first_deposit_mints_amount [OF z totalAssets_vault0, where a = 1000000000
      and msg_sender = 1 and receiver = 1]
  from T have c: "convertToShares vault0 1000000000 = Inr 1000000000" by blast
  from T t have d: "deposit 1 1000000000 1 vault0 =
      Inr (1000000000, vault0\<lparr>USDC := funded_ledger\<lparr>balanceOf := (balanceOf funded_ledger)(1 := 999000000000, 2000 := 1000000000)\<rparr>,
                    shares := (shares vault0)\<lparr>totalSupply := 1000000000,
                      balanceOf := (balanceOf (shares vault0))(1 := balanceOf (shares vault0) 1 + 1000000000)\<rparr>,
                    vault_events := vault_events vault0 @ [Deposit 1 1 1000000000 1000000000]\<rparr>)"
    by simp
  note r = transact_Inr [of "deposit 1 1000000000 1" vault0, OF d]
  show ?thesis using z totalAssets_vault0 c by (simp add: r vault0_fields empty_ledger_def)
qed

lemma round_trip_le:
  fixes a P Q sh :: nat
  assumes P: "0 < P" and Q: "0 < Q" and sh: "sh = a * P div Q"
  shows "sh * (Q + a) div (P + sh) \<le> a"
proof -
  have h: "sh * Q \<le> a * P" unfolding sh by simp
  have e1: "sh * (Q + a) = sh * Q + a * sh" by (simp add: algebra_simps)
  have e2: "a * (P + sh) = a * P + a * sh" by (simp add: algebra_simps)
  have "sh * (Q + a) \<le> a * (P + sh)" unfolding e1 e2 using h by (rule add_le_mono1)
  then have "sh * (Q + a) div (P + sh) \<le> a * (P + sh) div (P + sh)" by (rule div_le_mono)
  also have "\<dots> = a" using P by simp
  finally show ?thesis .
qed

lemma round_trip_loss:
  fixes a P Q sh k :: nat
  assumes P: "0 < P" and Q: "0 < Q" and sh: "sh = a * P div Q" and k: "Q \<le> k * P"
  shows "a \<le> sh * (Q + a) div (P + sh) + k"
proof (cases "a \<le> k")
  case True
  then show ?thesis by simp
next
  case False
  define T where "T = a - k"
  have a: "a = T + k" using False by (simp add: T_def)
  have "a * P < Q + Q * (a * P div Q)" using Q by (rule dividend_less_times_div)
  then have lt: "a * P < Q + sh * Q" by (simp add: sh mult.commute)
  have "T * P + k * P = a * P" unfolding a by (simp add: algebra_simps)
  with lt k have tp: "T * P \<le> sh * Q" by linarith
  have "T \<le> a" unfolding a by simp
  then have ts: "T * sh \<le> a * sh" by (rule mult_le_mono1)
  have e1: "T * (P + sh) = T * P + T * sh" by (simp add: algebra_simps)
  have e2: "sh * (Q + a) = sh * Q + a * sh" by (simp add: algebra_simps)
  have "T * (P + sh) \<le> sh * (Q + a)" unfolding e1 e2 using tp ts by (rule add_le_mono)
  then have "T \<le> sh * (Q + a) div (P + sh)"
    using P by (simp add: less_eq_div_iff_mult_less_eq)
  then show ?thesis unfolding a by simp
qed

lemma totalAssets_unat:
  "totalAssets s = Inr ta \<Longrightarrow>
     unat ta = unat (balanceOf (USDC s) (vault_address s)) + unat (managedAssets s)"
  unfolding totalAssets_def by (rule checked_add_unat)

lemma convertToShares_unat:
  assumes "convertToShares s a = Inr sh"
  shows "\<exists>ta. totalAssets s = Inr ta \<and>
     unat sh = unat a * (unat (totalSupply (shares s)) + 1000) div (unat ta + 1000)"
proof -
  from assms obtain n ta d where
    n: "checked_add (totalSupply (shares s)) VIRTUAL_OFFSET = Inr n" and
    ta: "totalAssets s = Inr ta" and
    d: "checked_add ta VIRTUAL_OFFSET = Inr d" and
    m: "mulDiv a n d = Inr sh"
    by (auto simp: convertToShares_def rbind_eq_Inr)
  have "unat sh = unat a * (unat (totalSupply (shares s)) + 1000) div (unat ta + 1000)"
    using checked_add_unat [OF n] checked_add_unat [OF d] mulDiv_unat [OF m] by simp
  with ta show ?thesis by blast
qed

lemma convertToAssets_unat:
  assumes "convertToAssets s sh = Inr assets"
  shows "\<exists>ta. totalAssets s = Inr ta \<and>
     unat assets = unat sh * (unat ta + 1000) div (unat (totalSupply (shares s)) + 1000)"
proof -
  from assms obtain ta n d where
    ta: "totalAssets s = Inr ta" and
    n: "checked_add ta VIRTUAL_OFFSET = Inr n" and
    d: "checked_add (totalSupply (shares s)) VIRTUAL_OFFSET = Inr d" and
    m: "mulDiv sh n d = Inr assets"
    by (auto simp: convertToAssets_def rbind_eq_Inr)
  have "unat assets = unat sh * (unat ta + 1000) div (unat (totalSupply (shares s)) + 1000)"
    using checked_add_unat [OF n] checked_add_unat [OF d] mulDiv_unat [OF m] by simp
  with ta show ?thesis by blast
qed

lemma deposit_Inr:
  assumes "deposit msg_sender a receiver s = Inr (sh, s1)"
  shows "convertToShares s a = Inr sh \<and>
     (\<exists>u t. erc20_transferFrom (vault_address s) msg_sender (vault_address s) a (USDC s) = Inr u \<and>
        erc20_mint receiver sh (shares s) = Inr t \<and>
        s1 = s\<lparr>USDC := u, shares := t,
               vault_events := vault_events s @ [Deposit msg_sender receiver a sh]\<rparr>)"
proof -
  from assms have nz: "a \<noteq> 0" "receiver \<noteq> 0" by (auto simp: deposit_def split: if_splits)
  from assms nz obtain sh0 where c: "convertToShares s a = Inr sh0" and
    rest: "(if sh0 = 0 then Inl ZeroAmount
        else
          rbind (erc20_transferFrom (vault_address s) msg_sender (vault_address s) a (USDC s))
            (\<lambda>u.
          rbind (erc20_mint receiver sh0 (shares s)) (\<lambda>t.
          Inr (sh0, s\<lparr>USDC := u, shares := t,
                      vault_events := vault_events s @ [Deposit msg_sender receiver a sh0]\<rparr>)))) =
        Inr (sh, s1)"
    by (auto simp: deposit_def rbind_eq_Inr)
  from rest have "sh0 \<noteq> 0" by (auto split: if_splits)
  with rest c show ?thesis by (auto simp: rbind_eq_Inr)
qed

lemma redeem_Inr:
  assumes "redeem msg_sender sh receiver s = Inr (assets, s2)"
  shows "convertToAssets s sh = Inr assets"
proof -
  from assms have nz: "sh \<noteq> 0" "receiver \<noteq> 0" by (auto simp: redeem_def split: if_splits)
  from assms nz obtain as0 where c: "convertToAssets s sh = Inr as0" and
    rest: "(if as0 = 0 then Inl ZeroAmount
        else
          let liquidity = availableLiquidity s in
          if liquidity < as0 then Inl (InsufficientLiquidity as0 liquidity)
          else
            rbind (erc20_burn msg_sender sh (shares s)) (\<lambda>t.
            rbind (erc20_transfer (vault_address s) receiver as0 (USDC s)) (\<lambda>u.
            Inr (as0, s\<lparr>USDC := u, shares := t,
                          vault_events := vault_events s @ [Redeem msg_sender receiver sh as0]\<rparr>)))) =
        Inr (assets, s2)"
    by (auto simp: redeem_def rbind_eq_Inr)
  from rest have "as0 = assets" by (auto simp: Let_def rbind_eq_Inr split: if_splits)
  with c show ?thesis by simp
qed

text \<open>
  C5 (amended).  Depositing \<open>a\<close> and then immediately redeeming the shares minted by that
  deposit returns at most \<open>a\<close>, in every vault state.  The specification's statement that the shortfall is at
  most 1 unit in every state fails: the deposit rounds the shares down, and one share is
  worth \<open>(totalAssets + 1000) / (totalShares + 1000)\<close> units, which exceeds 1 after a
  reported profit or a donation.  What holds: the shortfall is at most \<open>k\<close> units whenever
  \<open>totalAssets + 1000 \<le> k * (totalShares + 1000)\<close> before the deposit, and so at most 1
  unit whenever \<open>totalAssets \<le> totalShares\<close> before the deposit (an empty vault included).
  The depositor is an account other than the vault itself, and the vault's USDC balance
  does not wrap when credited (on a ledger whose balances sum to its total supply it
  cannot).
\<close>

theorem deposit_then_redeem:
  assumes dep: "deposit msg_sender a receiver s = Inr (sh, s1)"
    and red: "redeem holder sh receiver' s1 = Inr (assets, s2)"
    and ext: "msg_sender \<noteq> vault_address s"
    and fit: "unat (balanceOf (USDC s) (vault_address s)) + unat a < 2 ^ 256"
  shows "assets \<le> a \<and>
     (\<forall>ta k. totalAssets s = Inr ta \<and>
        unat ta + unat VIRTUAL_OFFSET \<le> k * (unat (totalSupply (shares s)) + unat VIRTUAL_OFFSET)
        \<longrightarrow> unat a - unat assets \<le> k) \<and>
     (\<forall>ta. totalAssets s = Inr ta \<and> ta \<le> totalSupply (shares s) \<longrightarrow> unat a - unat assets \<le> 1)"
proof -
  let ?S = "unat (totalSupply (shares s))"
  let ?B = "unat (balanceOf (USDC s) (vault_address s))"
  let ?M = "unat (managedAssets s)"
  from deposit_Inr [OF dep] obtain u t where
    cs: "convertToShares s a = Inr sh" and
    u: "erc20_transferFrom (vault_address s) msg_sender (vault_address s) a (USDC s) = Inr u" and
    t: "erc20_mint receiver sh (shares s) = Inr t" and
    s1: "s1 = s\<lparr>USDC := u, shares := t,
               vault_events := vault_events s @ [Deposit msg_sender receiver a sh]\<rparr>"
    by blast
  from convertToShares_unat [OF cs] obtain ta where
    ta: "totalAssets s = Inr ta" and
    ush: "unat sh = unat a * (?S + 1000) div (unat ta + 1000)" by blast
  have uta: "unat ta = ?B + ?M" by (rule totalAssets_unat [OF ta])
  have bu: "balanceOf u (vault_address s) = balanceOf (USDC s) (vault_address s) + a"
    using erc20_transferFrom_balanceOf [OF u] ext by simp
  have ubu: "unat (balanceOf u (vault_address s)) = ?B + unat a"
    unfolding bu using fit unat_add_lem [of "balanceOf (USDC s) (vault_address s)" a] by simp
  have ts: "unat (totalSupply t) = ?S + unat sh"
    using t unat_add_lem [of "totalSupply (shares s)" sh] by (auto simp: erc20_mint_Inr)
  from convertToAssets_unat [OF redeem_Inr [OF red]] obtain ta1 where
    ta1: "totalAssets s1 = Inr ta1" and
    uas: "unat assets = unat sh * (unat ta1 + 1000) div (unat (totalSupply (shares s1)) + 1000)"
    by blast
  have uta1: "unat ta1 = unat ta + unat a"
    using totalAssets_unat [OF ta1] by (simp add: s1 ubu uta)
  have uas': "unat assets =
      unat sh * ((unat ta + 1000) + unat a) div ((?S + 1000) + unat sh)"
    using uas by (simp add: s1 ts uta1 add_ac)
  have le: "unat assets \<le> unat a"
    unfolding uas' by (rule round_trip_le [OF _ _ ush]) simp_all
  have loss: "unat a - unat assets \<le> k" if "unat ta + 1000 \<le> k * (?S + 1000)" for k
  proof -
    have "unat a \<le> unat assets + k"
      unfolding uas' by (rule round_trip_loss [OF _ _ ush that]) simp_all
    then show ?thesis by simp
  qed
  have 1: "assets \<le> a" using le by (simp add: word_le_nat_alt)
  have 2: "\<forall>ta' k. totalAssets s = Inr ta' \<and>
        unat ta' + unat VIRTUAL_OFFSET \<le> k * (?S + unat VIRTUAL_OFFSET)
        \<longrightarrow> unat a - unat assets \<le> k"
    using loss ta by simp
  have 3: "\<forall>ta'. totalAssets s = Inr ta' \<and> ta' \<le> totalSupply (shares s) \<longrightarrow>
      unat a - unat assets \<le> 1"
  proof (intro allI impI)
    fix ta' assume h: "totalAssets s = Inr ta' \<and> ta' \<le> totalSupply (shares s)"
    then have "unat ta \<le> ?S" using ta by (simp add: word_le_nat_alt)
    then have "unat ta + 1000 \<le> 1 * (?S + 1000)" by simp
    then show "unat a - unat assets \<le> 1" by (rule loss)
  qed
  from 1 2 3 show ?thesis by blast
qed

theorem deposit_then_redeem_witness:
  "returned (deposit 1 3 1)
     (state_after (reportPnL 7 (- 500))
       (state_after (deployFunds 7 500) (state_after (deposit 1 500 1) vault0))) = Inr 4 \<and>
   returned (redeem 1 4 1)
     (state_after (deposit 1 3 1)
       (state_after (reportPnL 7 (- 500))
         (state_after (deployFunds 7 500) (state_after (deposit 1 500 1) vault0)))) = Inr 2 \<and>
   totalAssets (state_after (reportPnL 7 (- 500))
       (state_after (deployFunds 7 500) (state_after (deposit 1 500 1) vault0))) = Inr 0 \<and>
   totalSupply (shares (state_after (reportPnL 7 (- 500))
       (state_after (deployFunds 7 500) (state_after (deposit 1 500 1) vault0)))) = 500 \<and>
   (2 :: u256) \<le> 3 \<and> unat (3 :: u256) - unat (2 :: u256) \<le> 1"
proof -
  let ?s = "state_after (reportPnL 7 (- 500))
       (state_after (deployFunds 7 500) (state_after (deposit 1 500 1) vault0))"
  let ?s1 = "state_after (deposit 1 3 1) ?s"
  let ?s2 = "state_after (redeem 1 4 1) ?s1"
  have d: "deposit 1 3 1 ?s = Inr (4, ?s1)" by (simp add: run_eval vault_eval)
  have r: "redeem 1 4 1 ?s1 = Inr (2, ?s2)" by (simp add: run_eval vault_eval)
  have e: "(1 :: address) \<noteq> vault_address ?s" by (simp add: run_eval vault_eval)
  have f: "unat (balanceOf (USDC ?s) (vault_address ?s)) + unat (3 :: u256) < 2 ^ 256"
    by (simp add: run_eval vault_eval)
  have ta: "totalAssets ?s = Inr 0" by (simp add: run_eval vault_eval)
  have ts: "totalSupply (shares ?s) = 500" by (simp add: run_eval vault_eval)
  note T = deposit_then_redeem [OF d r e f]
  have 1: "(2 :: u256) \<le> 3" by (rule T [THEN conjunct1])
  have le: "(0 :: u256) \<le> totalSupply (shares ?s)" by simp
  have 2: "unat (3 :: u256) - unat (2 :: u256) \<le> 1"
    by (rule T [THEN conjunct2, THEN conjunct2, THEN spec, THEN mp, OF conjI [OF ta le]])
  have 3: "returned (deposit 1 3 1) ?s = Inr 4"
    using transact_Inr [of "deposit 1 3 1" ?s, OF d] by simp
  have 4: "returned (redeem 1 4 1) ?s1 = Inr 2"
    using transact_Inr [of "redeem 1 4 1" ?s1, OF r] by simp
  show ?thesis by (intro conjI 3 4 ta ts 1 2)
qed

text \<open>
  The counterexample to C5 as stated: account 2 donates 10,000 USDC to the empty vault;
  account 1 deposits 1,000 USDC (1000000000 units) and receives 99 shares; redeeming the 99
  shares at once returns 990900909 units, 9099091 units short of the deposit.
\<close>

theorem deposit_then_redeem_loss_counterexample:
  "returned (donate 2 10000000000) vault0 = Inr () \<and>
   returned (deposit 1 1000000000 1) (state_after (donate 2 10000000000) vault0) = Inr 99 \<and>
   returned (redeem 1 99 1)
     (state_after (deposit 1 1000000000 1) (state_after (donate 2 10000000000) vault0)) =
     Inr 990900909 \<and>
   unat (1000000000 :: u256) - unat (990900909 :: u256) = 9099091"
  by (simp add: run_eval vault_eval)

section \<open>The vault: rejections\<close>

lemma deposit_ex2:
  "deposit 1 1000000 1 vault0 =
     Inr (1000000,
          vault0\<lparr>USDC := funded_ledger\<lparr>balanceOf :=
                     (balanceOf funded_ledger)(1 := 999999000000, 2000 := 1000000)\<rparr>,
                 shares := empty_ledger\<lparr>totalSupply := 1000000,
                     balanceOf := (\<lambda>a. 0)(1 := 1000000)\<rparr>,
                 vault_events := [Deposit 1 1 1000000 1000000]\<rparr>)"
  by (simp add: vault_eval)

lemma deployFunds_ex2:
  "deployFunds 7 1000000
     (vault0\<lparr>USDC := funded_ledger\<lparr>balanceOf :=
                     (balanceOf funded_ledger)(1 := 999999000000, 2000 := 1000000)\<rparr>,
                 shares := empty_ledger\<lparr>totalSupply := 1000000,
                     balanceOf := (\<lambda>a. 0)(1 := 1000000)\<rparr>,
                 vault_events := [Deposit 1 1 1000000 1000000]\<rparr>) =
     Inr ((),
          vault0\<lparr>USDC := funded_ledger\<lparr>balanceOf :=
                     (balanceOf funded_ledger)(1 := 999999000000, 2000 := 0, 7 := 1000001000000)\<rparr>,
                 shares := empty_ledger\<lparr>totalSupply := 1000000,
                     balanceOf := (\<lambda>a. 0)(1 := 1000000)\<rparr>,
                 managedAssets := 1000000,
                 vault_events := [Deposit 1 1 1000000 1000000, FundsDeployed 1000000]\<rparr>)"
  by (simp add: vault_eval)

lemma reportPnL_ex2:
  "reportPnL 7 (- 1000000)
     (vault0\<lparr>USDC := funded_ledger\<lparr>balanceOf :=
                     (balanceOf funded_ledger)(1 := 999999000000, 2000 := 0, 7 := 1000001000000)\<rparr>,
                 shares := empty_ledger\<lparr>totalSupply := 1000000,
                     balanceOf := (\<lambda>a. 0)(1 := 1000000)\<rparr>,
                 managedAssets := 1000000,
                 vault_events := [Deposit 1 1 1000000 1000000, FundsDeployed 1000000]\<rparr>) =
     Inr ((),
          vault0\<lparr>USDC := funded_ledger\<lparr>balanceOf :=
                     (balanceOf funded_ledger)(1 := 999999000000, 2000 := 0, 7 := 1000001000000)\<rparr>,
                 shares := empty_ledger\<lparr>totalSupply := 1000000,
                     balanceOf := (\<lambda>a. 0)(1 := 1000000)\<rparr>,
                 managedAssets := 0,
                 vault_events := [Deposit 1 1 1000000 1000000, FundsDeployed 1000000,
                                  PnLReported (- 1000000) 0]\<rparr>)"
  by (simp add: vault_eval)

text \<open>
  C9.  \<open>redeem\<close> with a set receiver fails with ZeroAmount, leaving the state unchanged,
  whenever the computed asset amount \<open>convertToAssets shares\<close> is zero, also for a nonzero
  number of shares: share amounts that small cannot be redeemed.  (An unset receiver is
  rejected before the conversion, with ZeroAddress.)
\<close>

theorem redeem_rejects_zero_assets:
  assumes "convertToAssets s sh = Inr 0" and "receiver \<noteq> 0"
  shows "redeem msg_sender sh receiver s = Inl ZeroAmount \<and>
     transact (redeem msg_sender sh receiver) s = (Inl ZeroAmount, s)"
proof -
  have "redeem msg_sender sh receiver s = Inl ZeroAmount"
    using assms by (simp add: redeem_def)
  then show ?thesis by (simp add: transact_def)
qed

theorem redeem_rejects_zero_assets_witness:
  "convertToAssets
     (state_after (reportPnL 7 (- 1000000))
       (state_after (deployFunds 7 1000000) (state_after (deposit 1 1000000 1) vault0))) 1 = Inr 0 \<and>
   balanceOf (shares (state_after (reportPnL 7 (- 1000000))
       (state_after (deployFunds 7 1000000) (state_after (deposit 1 1000000 1) vault0)))) 1 = 1000000 \<and>
   (1 :: address) \<noteq> 0 \<and>
   transact (redeem 1 1 1)
     (state_after (reportPnL 7 (- 1000000))
       (state_after (deployFunds 7 1000000) (state_after (deposit 1 1000000 1) vault0))) =
     (Inl ZeroAmount,
      state_after (reportPnL 7 (- 1000000))
       (state_after (deployFunds 7 1000000) (state_after (deposit 1 1000000 1) vault0)))"
proof -
  note d = transact_Inr [of "deposit 1 1000000 1" vault0, OF deposit_ex2]
  note f = transact_Inr [of "deployFunds 7 1000000", OF deployFunds_ex2]
  note r = transact_Inr [of "reportPnL 7 (- 1000000)", OF reportPnL_ex2]
  let ?s = "state_after (reportPnL 7 (- 1000000))
       (state_after (deployFunds 7 1000000) (state_after (deposit 1 1000000 1) vault0))"
  have c: "convertToAssets ?s 1 = Inr 0"
    by (simp only: d f r) (simp add: vault_eval)
  have b: "balanceOf (shares ?s) 1 = 1000000"
    by (simp only: d f r) (simp add: empty_ledger_def)
  have n: "(1 :: address) \<noteq> 0" by simp
  from redeem_rejects_zero_assets [OF c n, of 1] show ?thesis using c b by simp
qed

text \<open>
  C10.  Called by the owner, \<open>reportPnL 0\<close> succeeds: it raises no error, leaves
  \<open>managedAssets\<close> and the rest of the vault's state as they are, and only records the
  PnLReported event.  Every other mutating operation rejects a zero amount with ZeroAmount:
  \<open>deposit\<close>, \<open>redeem\<close>, the owner's \<open>deployFunds\<close> and \<open>returnFunds\<close>, and the curve's
  \<open>buy\<close> and \<open>sell\<close>.
\<close>

theorem reportPnL_zero_succeeds:
  assumes "owner s = msg_sender"
  shows "reportPnL msg_sender 0 s =
       Inr ((), s\<lparr>vault_events := vault_events s @ [PnLReported 0 (managedAssets s)]\<rparr>) \<and>
     deposit c 0 receiver s = Inl ZeroAmount \<and>
     redeem c 0 receiver s = Inl ZeroAmount \<and>
     deployFunds msg_sender 0 s = Inl ZeroAmount \<and>
     returnFunds msg_sender 0 s = Inl ZeroAmount \<and>
     buy c 0 k = Inl ZeroAmount \<and>
     sell c 0 k = Inl ZeroAmount"
  using assms
  by (simp add: reportPnL_def deposit_def redeem_def deployFunds_def returnFunds_def buy_def sell_def)

theorem reportPnL_zero_succeeds_witness:
  "owner vault0 = 7 \<and>
   reportPnL 7 0 vault0 = Inr ((), vault0\<lparr>vault_events := [PnLReported 0 0]\<rparr>) \<and>
   managedAssets (state_after (reportPnL 7 0) vault0) = managedAssets vault0 \<and>
   returnFunds 7 0 vault0 = Inl ZeroAmount"
proof -
  have o: "owner vault0 = 7" by (simp add: vault0_fields)
  note T = reportPnL_zero_succeeds [OF o]
  from T have r: "reportPnL 7 0 vault0 = Inr ((), vault0\<lparr>vault_events := [PnLReported 0 0]\<rparr>)"
    by (simp add: vault0_fields)
  from T have f: "returnFunds 7 0 vault0 = Inl ZeroAmount" by blast
  note a = transact_Inr [of "reportPnL 7 0" vault0, OF r]
  show ?thesis using o r f by (simp add: a)
qed

lemma returnFunds_rejects_excess:
  assumes "owner s = msg_sender" and "managedAssets s < amount"
  shows "returnFunds msg_sender amount s = Inl (ExcessiveReduction amount (managedAssets s))"
proof -
  from assms(2) have "amount \<noteq> 0" by (auto simp: word_gt_0)
  with assms show ?thesis by (simp add: returnFunds_def)
qed

lemma reportPnL_rejects_excess:
  assumes "owner s = msg_sender" and "sint amount < 0" and "sint amount \<noteq> - (2 ^ 255)"
    and "managedAssets s < - amount"
  shows "reportPnL msg_sender amount s = Inl (ExcessiveReduction (- amount) (managedAssets s))"
  using assms by (simp add: reportPnL_def checked_neg_def)

lemma reportPnL_min_int256:
  assumes "owner s = msg_sender"
  shows "reportPnL msg_sender (- (2 ^ 255)) s = Inl (Panic ArithmeticOverflow)"
  using assms by (simp add: reportPnL_def checked_neg_def)

lemma unat_nonneg_int256:
  fixes w :: i256
  assumes "0 \<le> sint w"
  shows "int (unat w) = sint w"
proof -
  have "sint w < 2 ^ 256" using sint_lt [of w] by simp
  then have "take_bit 256 (sint w) = sint w" using assms by (simp add: take_bit_int_eq_self)
  then show ?thesis using uint_sint [of w] by simp
qed

lemma unat_neg_int256:
  fixes w :: i256
  assumes "sint w < 0"
  shows "int (unat (- w)) = - sint w"
proof -
  have ge: "- (2 ^ 255) \<le> sint w" using sint_ge [of w] by simp
  have "uint (- w) = uint (word_of_int (- sint w) :: i256)" by simp
  also have "\<dots> = take_bit 256 (- sint w)"
    by (subst uint_word_of_int_eq) simp
  also have "\<dots> = - sint w"
    using assms ge by (intro take_bit_int_eq_self) simp_all
  finally show ?thesis by simp
qed

lemma managedAssets_never_underflows:
  "(returnFunds msg_sender amount s = Inr (r, s') \<longrightarrow>
      unat amount \<le> unat (managedAssets s) \<and>
      unat (managedAssets s') = unat (managedAssets s) - unat amount) \<and>
   (reportPnL msg_sender pnl s = Inr (r, s'') \<longrightarrow>
      0 \<le> int (unat (managedAssets s)) + sint pnl \<and>
      int (unat (managedAssets s'')) = int (unat (managedAssets s)) + sint pnl)"
proof (intro conjI impI)
  assume a: "returnFunds msg_sender amount s = Inr (r, s')"
  then obtain m u where m: "checked_sub (managedAssets s) amount = Inr m"
    and s': "s' = s\<lparr>USDC := u, managedAssets := m,
                    vault_events := vault_events s @ [FundsReturned amount]\<rparr>"
    by (auto simp: returnFunds_def rbind_eq_Inr split: if_splits)
  from m show "unat amount \<le> unat (managedAssets s)" by (simp add: checked_sub_Inr)
  from checked_sub_unat [OF m] s'
  show "unat (managedAssets s') = unat (managedAssets s) - unat amount" by simp
next
  assume a: "reportPnL msg_sender pnl s = Inr (r, s'')"
  then obtain m where m: "(if 0 < sint pnl then checked_add (managedAssets s) pnl
           else if sint pnl < 0 then
             rbind (checked_neg pnl) (\<lambda>loss.
               if managedAssets s < loss then Inl (ExcessiveReduction loss (managedAssets s))
               else checked_sub (managedAssets s) loss)
           else Inr (managedAssets s)) = Inr m"
    and s'': "s'' = s\<lparr>managedAssets := m, vault_events := vault_events s @ [PnLReported pnl m]\<rparr>"
    by (auto simp: reportPnL_def rbind_eq_Inr split: if_splits)
  have ms: "managedAssets s'' = m" using s'' by simp
  consider "0 < sint pnl" | "sint pnl < 0" | "sint pnl = 0" by linarith
  then have "0 \<le> int (unat (managedAssets s)) + sint pnl \<and>
      int (unat m) = int (unat (managedAssets s)) + sint pnl"
  proof cases
    case 1
    then have up: "int (unat pnl) = sint pnl" using unat_nonneg_int256 [of pnl] by simp
    from m 1 have "checked_add (managedAssets s) pnl = Inr m" by simp
    from checked_add_unat [OF this] up 1 show ?thesis by simp
  next
    case 2
    from m 2 obtain loss where l: "checked_neg pnl = Inr loss"
      and sub: "checked_sub (managedAssets s) loss = Inr m"
      by (auto simp: rbind_eq_Inr split: if_splits)
    from l have loss: "loss = - pnl"
      by (auto simp: checked_neg_def split: if_splits)
    have ul: "int (unat loss) = - sint pnl" unfolding loss using 2 by (rule unat_neg_int256)
    from sub have le: "unat loss \<le> unat (managedAssets s)" by (simp add: checked_sub_Inr)
    from checked_sub_unat [OF sub] le ul show ?thesis by linarith
  next
    case 3
    with m show ?thesis by simp
  qed
  then show "0 \<le> int (unat (managedAssets s)) + sint pnl" and
    "int (unat (managedAssets s'')) = int (unat (managedAssets s)) + sint pnl"
    by (simp_all add: ms)
qed

text \<open>
  C8.  The specification's statement: \<open>returnFunds\<close> beyond \<open>managedAssets\<close>, and \<open>reportPnL\<close> with a loss
  whose magnitude exceeds \<open>managedAssets\<close>, both fail with ExcessiveReduction and leave the
  state unchanged, so \<open>managedAssets\<close> never underflows.  The lemmas above prove it for the
  owner's \<open>returnFunds\<close>, for every loss other than the least \<^verbatim>\<open>int256\<close>, and for
  the absence of underflow.  At the loss \<open>- 2 ^ 255\<close> the contract computes
  \<^verbatim>\<open>uint256(-amount)\<close> before it compares, the negation overflows, and the call
  reverts with Panic(0x11) instead of ExcessiveReduction, as evaluated here on the freshly
  deployed vault (the loss \<open>- 1\<close> beside it is rejected as claimed).
\<close>

theorem reportPnL_min_int256_panics:
  "owner vault0 = 7 \<and> managedAssets vault0 = 0 \<and>
   sint (- (2 ^ 255) :: i256) = - (2 ^ 255) \<and>
   reportPnL 7 (- (2 ^ 255)) vault0 = Inl (Panic ArithmeticOverflow) \<and>
   transact (reportPnL 7 (- (2 ^ 255))) vault0 = (Inl (Panic ArithmeticOverflow), vault0) \<and>
   reportPnL 7 (- 1) vault0 = Inl (ExcessiveReduction 1 0)"
  by (simp add: reportPnL_def checked_neg_def vault0_fields transact_def)

end
